theory Spec2Isabelle
  imports Main "HOL-Library.AList" "HOL-Library.Sublist"
begin

section \<open>JavaScript values used by mermaidAPI.js\<close>

text \<open>
  Objects live in a heap and are handed around by reference, as in JavaScript: a value is a
  primitive or the address of an object, and two properties that hold the same address hold
  the same object. Numbers are integers (every number in the defaults is one, and the file
  only copies numbers).
\<close>

type_synonym addr = nat

datatype val = VUndefined | VNull | VBool bool | VNum int | VStr string | VRef addr

datatype exn = TypeError | Thrown string

text \<open>
  An object has a kind, its own enumerable properties in enumeration order (what
  \<^verbatim>\<open>Object.keys\<close> lists), its own properties that are not enumerable, and a prototype.
  An ordinary object is extensible and all its properties are writable data properties.
  Every other object is special: a function (it has read-only properties), an array (its
  \<^verbatim>\<open>length\<close> follows its indices), and any object with an accessor or a read-only property,
  sealed, frozen, or provided by the host. What reading and writing a property of a special
  object does is left to the environment.
\<close>

datatype kind = Ordinary | Function string | Array | Exotic

record object =
  kind :: kind
  own_props :: "(string \<times> val) list"
  own_hidden :: "(string \<times> val) list"
  prototype :: "addr option"

type_synonym heap = "(addr \<times> object) list"

text \<open>
  A value read through to its leaves: what an object literal of the source denotes, and how
  a value is recorded when it is handed to a collaborator. An object is the association list
  of its own enumerable properties; an array is the object whose keys are its indices; a
  function is named by a label and carries its own properties.
\<close>

datatype jsval =
    JUndefined
  | JNull
  | JBool bool
  | JNum int
  | JStr string
  | JFun string "(string \<times> jsval) list"
  | JObj "(string \<times> jsval) list"

fun js_typeof :: "jsval \<Rightarrow> string" where
  "js_typeof JUndefined = ''undefined''"
| "js_typeof JNull = ''object''"
| "js_typeof (JBool b) = ''boolean''"
| "js_typeof (JNum n) = ''number''"
| "js_typeof (JStr s) = ''string''"
| "js_typeof (JFun f ps) = ''function''"
| "js_typeof (JObj ps) = ''object''"

definition lookup :: "(string \<times> jsval) list \<Rightarrow> string \<Rightarrow> jsval" where
  "lookup ps k = (case map_of ps k of None \<Rightarrow> JUndefined | Some v \<Rightarrow> v)"

fun get_prop :: "jsval \<Rightarrow> string \<Rightarrow> jsval" where
  "get_prop (JObj ps) k = lookup ps k"
| "get_prop (JFun f ps) k = lookup ps k"
| "get_prop v k = JUndefined"

section \<open>The presentation tree\<close>

text \<open>
  The document is the list of its top-level nodes; an element has a tag, attributes and
  children. A node is referred to by its position: the path of child indices from the top.
\<close>

datatype node =
    Text string
  | Elem (tag: string) (attrs: "(string \<times> string) list") (kids: "node list")

type_synonym dom = "node list"
type_synonym path = "nat list"

text \<open>The two simple selectors: by tag name and by id.\<close>

datatype selector = ByTag string | ById string

fun selects :: "selector \<Rightarrow> string \<Rightarrow> (string \<times> string) list \<Rightarrow> bool" where
  "selects (ByTag n) t a = (t = n)"
| "selects (ById i) t a = (map_of a ''id'' = Some i)"

fun matches :: "selector \<Rightarrow> node \<Rightarrow> bool" where
  "matches s (Text x) = False"
| "matches s (Elem t a ks) = selects s t a"

text \<open>
  What a simple selector selects, as \<^verbatim>\<open>document.querySelector\<close> does: the first element in document
  order (a node before its children, children left to right) that the selector matches,
  here as its path; \<open>None\<close> is the empty selection.
\<close>

fun shift :: "path \<Rightarrow> path" where
  "shift [] = []"
| "shift (i # p) = Suc i # p"

fun select_node :: "selector \<Rightarrow> node \<Rightarrow> path option"
  and select_nodes :: "selector \<Rightarrow> node list \<Rightarrow> path option" where
  "select_node s (Text t) = None"
| "select_node s (Elem t a ks) =
     (if matches s (Elem t a ks) then Some [] else select_nodes s ks)"
| "select_nodes s [] = None"
| "select_nodes s (n # ns) =
     (case select_node s n of
        Some p \<Rightarrow> Some (0 # p)
      | None \<Rightarrow> map_option shift (select_nodes s ns))"

text \<open>
  The node at a path, and the tree with the node at a path replaced by a list of nodes
  (one node to change it, none to remove it). A path that leads nowhere changes nothing.
\<close>

fun node_at :: "node list \<Rightarrow> path \<Rightarrow> node option" where
  "node_at ns [] = None"
| "node_at [] (i # p) = None"
| "node_at (n # ns) (0 # p) =
     (if p = [] then Some n else (case n of Elem t a ks \<Rightarrow> node_at ks p | Text s \<Rightarrow> None))"
| "node_at (n # ns) (Suc i # p) = node_at ns (i # p)"

fun modify_at :: "(node \<Rightarrow> node list) \<Rightarrow> path \<Rightarrow> node list \<Rightarrow> node list" where
  "modify_at f [] ns = ns"
| "modify_at f (i # p) [] = []"
| "modify_at f (0 # p) (n # ns) =
     (if p = [] then f n @ ns
      else (case n of Elem t a ks \<Rightarrow> Elem t a (modify_at f p ks) | Text s \<Rightarrow> Text s) # ns)"
| "modify_at f (Suc i # p) (n # ns) = n # modify_at f (i # p) ns"

text \<open>
  The number of elements a selector matches.
\<close>

fun count_node :: "selector \<Rightarrow> node \<Rightarrow> nat"
  and count_nodes :: "selector \<Rightarrow> node list \<Rightarrow> nat" where
  "count_node s (Text t) = 0"
| "count_node s (Elem t a ks) = (if matches s (Elem t a ks) then 1 else 0) + count_nodes s ks"
| "count_nodes s [] = 0"
| "count_nodes s (n # ns) = count_node s n + count_nodes s ns"

section \<open>Calls to collaborators, and the state\<close>

datatype parser = FlowParser | DotParser | SequenceParser | InfoParser | GanttParser

datatype db = Graph | SequenceDb | InfoDb | GanttDb

text \<open>
  Every call that leaves the file: to a renderer, a parser, \<^verbatim>\<open>utils.cloneCssStyles\<close>, the
  logger, or the caller's callback. The state keeps the list of the calls made, in order; an
  argument that is an object is recorded as it reads at the time of the call. The message of
  line 399 is recorded by its parts: the two keys and the value.
\<close>

datatype call =
    FlowRenderer_setConf jsval
  | FlowRenderer_draw string string bool
  | FlowRenderer_getClasses string bool
  | Seq_setConf jsval
  | Seq_draw string string
  | Gantt_setConf jsval
  | Gantt_draw string string
  | Info_draw string string string
  | Utils_cloneCssStyles "path option" jsval
  | Parser_parse parser string
  | Cb string
  | Log_warn string
  | Log_debug_setting string string jsval

text \<open>
  The state: the document, the heap, the object the variable \<^verbatim>\<open>config\<close> is bound to, the
  model each parser is bound to, and the calls made.
\<close>

record world =
  dom :: dom
  heap :: heap
  config :: addr
  yy :: "parser \<Rightarrow> db option"
  calls :: "call list"

text \<open>
  The callback argument of \<^verbatim>\<open>render\<close>: \<open>None\<close> is \<^verbatim>\<open>undefined\<close>; a function takes the
  markup and may change the document and raise (its second argument, the fixed reference
  \<^verbatim>\<open>graph.bindFunctions\<close>, carries no state of this file); any other value is not callable.
  The container argument is a selector string or a node, given by its path.
\<close>

datatype callback = CbFunction "string \<Rightarrow> dom \<Rightarrow> (exn + unit) \<times> dom" | CbNotCallable

datatype container = Selector string | NodeRef path

text \<open>
  What the file takes from the modules it requires on lines 14 to 31, from the browser and
  from the language; every statement below holds for whatever these are. \<open>detectType\<close> is
  \<^verbatim>\<open>utils.detectType\<close>, a function of the text alone that raises nothing. \<open>run\<close> gives, for
  every call to a renderer, a parser or \<^verbatim>\<open>utils.cloneCssStyles\<close>, what the call does to the
  document and whether it returns a value or raises. \<open>innerHTML\<close> is the browser's
  serialisation of the children of a node. \<open>protocol\<close>, \<open>host\<close> and \<open>pathname\<close> are those of
  \<^verbatim>\<open>window.location\<close>; \<open>version\<close> is \<^verbatim>\<open>require('../package.json').version\<close>. The two flags
  are the tests \<^verbatim>\<open>typeof node.remove === 'function'\<close> and
  \<^verbatim>\<open>typeof document !== 'undefined'\<close>.

  \<open>querySelector\<close> is the browser's selector engine, on any selector string: the exception
  it raises on a string that is no selector, or the first element the selector matches, if
  any. \<open>special_get\<close> and \<open>special_put\<close> read and write a property where a special object
  holds it or stands before it in the prototype chain (the arguments are that object, the
  key, the object the access started from, and for a write the value); they may change the
  heap and raise. \<open>primitive_get\<close> reads a property of a boolean, a number or a string, and
  \<open>primitive_keys\<close> is \<^verbatim>\<open>Object.keys\<close> on one (a TypeError in ES5, a list of keys later).
  \<open>to_primitive\<close> converts an object to a string for a concatenation, which runs its
  \<^verbatim>\<open>valueOf\<close> and \<^verbatim>\<open>toString\<close>: it may change the heap and raise.
\<close>

record env =
  detectType :: "string \<Rightarrow> string"
  run :: "call \<Rightarrow> dom \<Rightarrow> (exn + jsval) \<times> dom"
  innerHTML :: "node \<Rightarrow> string"
  protocol :: string
  host :: string
  pathname :: string
  version :: string
  node_remove_is_function :: bool
  document_defined :: bool
  querySelector :: "string \<Rightarrow> dom \<Rightarrow> exn + path option"
  special_get :: "addr \<Rightarrow> string \<Rightarrow> addr \<Rightarrow> heap \<Rightarrow> (exn + val) \<times> heap"
  special_put :: "addr \<Rightarrow> string \<Rightarrow> addr \<Rightarrow> val \<Rightarrow> heap \<Rightarrow> (exn + unit) \<times> heap"
  primitive_get :: "val \<Rightarrow> string \<Rightarrow> val"
  primitive_keys :: "val \<Rightarrow> exn + string list"
  to_primitive :: "addr \<Rightarrow> heap \<Rightarrow> (exn + string) \<times> heap"

section \<open>Calling collaborators\<close>

text \<open>
  A call to a collaborator runs it on the document and records the call. Statements run in
  sequence until one raises: \<open>Inl\<close> is an exception on its way out of the function.
\<close>

definition do_call :: "env \<Rightarrow> call \<Rightarrow> world \<Rightarrow> (exn + jsval) \<times> world" where
  "do_call env c w =
     (case run env c (dom w) of (r, d') \<Rightarrow> (r, w\<lparr>dom := d', calls := calls w @ [c]\<rparr>))"

definition and_then ::
  "(world \<Rightarrow> (exn + 'a) \<times> world) \<Rightarrow> ('a \<Rightarrow> world \<Rightarrow> (exn + 'b) \<times> world) \<Rightarrow>
   world \<Rightarrow> (exn + 'b) \<times> world" where
  "and_then m f w = (case m w of (Inl e, w') \<Rightarrow> (Inl e, w') | (Inr x, w') \<Rightarrow> f x w')"

section \<open>Reading and writing properties\<close>

text \<open>
  The own property of an object under a key, enumerable or not.
\<close>

definition own_prop :: "object \<Rightarrow> string \<Rightarrow> val option" where
  "own_prop ob k =
     (case map_of (own_props ob) k of Some v \<Rightarrow> Some v | None \<Rightarrow> map_of (own_hidden ob) k)"

text \<open>
  \<^verbatim>\<open>Object.prototype\<close> is the object at address 0, \<^verbatim>\<open>Function.prototype\<close> at 1 and
  \<^verbatim>\<open>Array.prototype\<close> at 2.
\<close>

definition Object_prototype :: addr where
  "Object_prototype = 0"

definition Function_prototype :: addr where
  "Function_prototype = 1"

definition Array_prototype :: addr where
  "Array_prototype = 2"

text \<open>
  The search for a key along the prototype chain, from an object upwards: it ends at the
  first object that has the key as an own property, at a special object (the rest is the
  environment's), at the accessor \<^verbatim>\<open>__proto__\<close> of \<^verbatim>\<open>Object.prototype\<close>, or at the end of
  the chain. The first argument bounds the length of the chain; chains are acyclic, so the
  number of objects in the heap is enough.
\<close>

datatype found = Found val | Proto_accessor | Special addr | Absent

fun lookup_chain :: "nat \<Rightarrow> heap \<Rightarrow> addr \<Rightarrow> string \<Rightarrow> found" where
  "lookup_chain 0 h a k = Absent"
| "lookup_chain (Suc n) h a k =
     (case map_of h a of
        None \<Rightarrow> Absent
      | Some ob \<Rightarrow>
          if kind ob \<noteq> Ordinary then Special a
          else (case own_prop ob k of
                  Some v \<Rightarrow> Found v
                | None \<Rightarrow>
                    if a = Object_prototype \<and> k = ''__proto__'' then Proto_accessor
                    else (case prototype ob of
                            None \<Rightarrow> Absent
                          | Some p \<Rightarrow> lookup_chain n h p k)))"

definition prototype_val :: "heap \<Rightarrow> addr \<Rightarrow> val" where
  "prototype_val h a =
     (case map_of h a of
        None \<Rightarrow> VUndefined
      | Some ob \<Rightarrow> (case prototype ob of None \<Rightarrow> VNull | Some p \<Rightarrow> VRef p))"

text \<open>
  \<^verbatim>\<open>v[k]\<close>: a TypeError on \<^verbatim>\<open>undefined\<close> and \<^verbatim>\<open>null\<close>.
\<close>

definition js_get :: "env \<Rightarrow> val \<Rightarrow> string \<Rightarrow> world \<Rightarrow> (exn + val) \<times> world" where
  "js_get env v k w =
     (case v of
        VUndefined \<Rightarrow> (Inl TypeError, w)
      | VNull \<Rightarrow> (Inl TypeError, w)
      | VRef a \<Rightarrow>
          (case lookup_chain (Suc (Suc (length (heap w)))) (heap w) a k of
             Found x \<Rightarrow> (Inr x, w)
           | Absent \<Rightarrow> (Inr VUndefined, w)
           | Proto_accessor \<Rightarrow> (Inr (prototype_val (heap w) a), w)
           | Special q \<Rightarrow>
               (case special_get env q k a (heap w) of (r, h') \<Rightarrow> (r, w\<lparr>heap := h'\<rparr>)))
      | _ \<Rightarrow> (Inr (primitive_get env v k), w))"

text \<open>
  Writing an own property of an ordinary object: an existing key keeps its place (and stays
  hidden if it was), a new one goes last among the enumerable ones.
\<close>

definition store_own :: "string \<Rightarrow> val \<Rightarrow> object \<Rightarrow> object" where
  "store_own k v ob =
     (if map_of (own_props ob) k = None \<and> map_of (own_hidden ob) k \<noteq> None
      then ob\<lparr>own_hidden := AList.update k v (own_hidden ob)\<rparr>
      else ob\<lparr>own_props := AList.update k v (own_props ob)\<rparr>)"

text \<open>
  The setter of \<^verbatim>\<open>__proto__\<close>: an object or \<^verbatim>\<open>null\<close> becomes the prototype, unless the
  chain would become a cycle, which is a TypeError; any other value is ignored.
\<close>

fun reaches :: "nat \<Rightarrow> heap \<Rightarrow> addr \<Rightarrow> addr \<Rightarrow> bool" where
  "reaches 0 h p a = False"
| "reaches (Suc n) h p a =
     (p = a \<or> (case map_of h p of
                 None \<Rightarrow> False
               | Some ob \<Rightarrow> (case prototype ob of None \<Rightarrow> False | Some q \<Rightarrow> reaches n h q a)))"

definition set_prototype :: "heap \<Rightarrow> addr \<Rightarrow> val \<Rightarrow> exn + heap" where
  "set_prototype h a v =
     (case map_of h a of
        None \<Rightarrow> Inr h
      | Some ob \<Rightarrow>
          (case v of
             VNull \<Rightarrow> Inr (AList.update a (ob\<lparr>prototype := None\<rparr>) h)
           | VRef p \<Rightarrow>
               if reaches (Suc (length h)) h p a then Inl TypeError
               else Inr (AList.update a (ob\<lparr>prototype := Some p\<rparr>) h)
           | _ \<Rightarrow> Inr h))"

text \<open>
  \<^verbatim>\<open>target[k] = v\<close>. The file is not in strict mode: the assignment to a property of a
  boolean, number or string is silently dropped (their prototypes are taken to be the
  built-in ones); on \<^verbatim>\<open>null\<close> and \<^verbatim>\<open>undefined\<close> it raises a TypeError. On an ordinary
  object whose chain holds no special object before the key, the value becomes an own
  property.
\<close>

definition js_put :: "env \<Rightarrow> val \<Rightarrow> string \<Rightarrow> val \<Rightarrow> world \<Rightarrow> (exn + unit) \<times> world" where
  "js_put env target k v w =
     (case target of
        VUndefined \<Rightarrow> (Inl TypeError, w)
      | VNull \<Rightarrow> (Inl TypeError, w)
      | VRef a \<Rightarrow>
          (case lookup_chain (Suc (Suc (length (heap w)))) (heap w) a k of
             Special q \<Rightarrow>
               (case special_put env q k a v (heap w) of (r, h') \<Rightarrow> (r, w\<lparr>heap := h'\<rparr>))
           | Proto_accessor \<Rightarrow>
               (case set_prototype (heap w) a v of
                  Inl e \<Rightarrow> (Inl e, w)
                | Inr h' \<Rightarrow> (Inr (), w\<lparr>heap := h'\<rparr>))
           | _ \<Rightarrow>
               (case map_of (heap w) a of
                  None \<Rightarrow> (Inr (), w)
                | Some ob \<Rightarrow> (Inr (), w\<lparr>heap := AList.update a (store_own k v ob) (heap w)\<rparr>)))
      | _ \<Rightarrow> (Inr (), w))"

text \<open>The \<^verbatim>\<open>typeof\<close> operator, and truthiness as the condition of an \<^verbatim>\<open>if\<close> reads a value.\<close>

definition typeof_val :: "heap \<Rightarrow> val \<Rightarrow> string" where
  "typeof_val h v =
     (case v of
        VUndefined \<Rightarrow> ''undefined''
      | VNull \<Rightarrow> ''object''
      | VBool b \<Rightarrow> ''boolean''
      | VNum n \<Rightarrow> ''number''
      | VStr s \<Rightarrow> ''string''
      | VRef a \<Rightarrow>
          (case map_of h a of
             None \<Rightarrow> ''object''
           | Some ob \<Rightarrow> (case kind ob of Function f \<Rightarrow> ''function'' | _ \<Rightarrow> ''object'')))"

fun to_boolean :: "val \<Rightarrow> bool" where
  "to_boolean VUndefined = False"
| "to_boolean VNull = False"
| "to_boolean (VBool b) = b"
| "to_boolean (VNum n) = (n \<noteq> 0)"
| "to_boolean (VStr s) = (s \<noteq> [])"
| "to_boolean (VRef a) = True"

text \<open>
  \<^verbatim>\<open>Object.keys(v)\<close>: the own enumerable keys of an object, a TypeError on \<^verbatim>\<open>null\<close> and
  \<^verbatim>\<open>undefined\<close>.
\<close>

definition object_keys :: "env \<Rightarrow> heap \<Rightarrow> val \<Rightarrow> exn + string list" where
  "object_keys env h v =
     (case v of
        VUndefined \<Rightarrow> Inl TypeError
      | VNull \<Rightarrow> Inl TypeError
      | VRef a \<Rightarrow> (case map_of h a of None \<Rightarrow> Inr [] | Some ob \<Rightarrow> Inr (map fst (own_props ob)))
      | _ \<Rightarrow> primitive_keys env v)"

text \<open>
  The object literal \<^verbatim>\<open>{}\<close>: a new ordinary object at an address not in use.
\<close>

definition fresh :: "heap \<Rightarrow> addr" where
  "fresh h = Suc (fold max (map fst h) 0)"

definition ordinary_object :: "(string \<times> val) list \<Rightarrow> object" where
  "ordinary_object ps =
     \<lparr>kind = Ordinary, own_props = ps, own_hidden = [], prototype = Some Object_prototype\<rparr>"

definition new_object :: "world \<Rightarrow> (exn + val) \<times> world" where
  "new_object w =
     (Inr (VRef (fresh (heap w))), w\<lparr>heap := heap w @ [(fresh (heap w), ordinary_object [])]\<rparr>)"

text \<open>
  The conversion of a value to a string when it is concatenated to one: a primitive converts
  without effect, an object through the environment.
\<close>

definition concat_string :: "env \<Rightarrow> val \<Rightarrow> world \<Rightarrow> (exn + unit) \<times> world" where
  "concat_string env v w =
     (case v of
        VRef a \<Rightarrow>
          (case to_primitive env a (heap w) of
             (Inl e, h') \<Rightarrow> (Inl e, w\<lparr>heap := h'\<rparr>)
           | (Inr s, h') \<Rightarrow> (Inr (), w\<lparr>heap := h'\<rparr>))
      | _ \<Rightarrow> (Inr (), w))"

text \<open>
  A value as it reads: its own enumerable properties, and theirs, down to the leaves. The
  first argument bounds the depth.
\<close>

fun snap :: "nat \<Rightarrow> heap \<Rightarrow> val \<Rightarrow> jsval" where
  "snap n h VUndefined = JUndefined"
| "snap n h VNull = JNull"
| "snap n h (VBool b) = JBool b"
| "snap n h (VNum i) = JNum i"
| "snap n h (VStr s) = JStr s"
| "snap 0 h (VRef a) = JUndefined"
| "snap (Suc n) h (VRef a) =
     (case map_of h a of
        None \<Rightarrow> JUndefined
      | Some ob \<Rightarrow>
          (case kind ob of
             Function f \<Rightarrow> JFun f (map (\<lambda>(k, v). (k, snap n h v)) (own_props ob))
           | _ \<Rightarrow> JObj (map (\<lambda>(k, v). (k, snap n h v)) (own_props ob))))"

definition snapshot :: "heap \<Rightarrow> val \<Rightarrow> jsval" where
  "snapshot h v = snap (length h) h v"

section \<open>Configuration\<close>

text \<open>
  The defaults of \<^verbatim>\<open>var config\<close> (lines 44 to 217), key for key, as the literal reads.
\<close>

definition flowchart_defaults :: jsval where
  "flowchart_defaults = JObj [(''htmlLabels'', JBool True), (''useMaxWidth'', JBool True)]"

definition sequenceDiagram_defaults :: jsval where
  "sequenceDiagram_defaults = JObj
     [(''diagramMarginX'', JNum 50), (''diagramMarginY'', JNum 10), (''actorMargin'', JNum 50),
      (''width'', JNum 150), (''height'', JNum 65), (''boxMargin'', JNum 10),
      (''boxTextMargin'', JNum 5), (''noteMargin'', JNum 10), (''messageMargin'', JNum 35),
      (''mirrorActors'', JBool True), (''bottomMarginAdj'', JNum 1),
      (''useMaxWidth'', JBool True)]"

definition axisFormatter_default :: jsval where
  "axisFormatter_default = JObj
     [(''0'', JObj [(''0'', JStr ''%I:%M''), (''1'', JFun ''d.getHours()'' [])]),
      (''1'', JObj [(''0'', JStr ''w. %U''), (''1'', JFun ''d.getDay() == 1'' [])]),
      (''2'', JObj [(''0'', JStr ''%a %d''),
         (''1'', JFun ''d.getDay() && d.getDate() != 1'' [])]),
      (''3'', JObj [(''0'', JStr ''%b %d''), (''1'', JFun ''d.getDate() != 1'' [])]),
      (''4'', JObj [(''0'', JStr ''%m-%y''), (''1'', JFun ''d.getMonth()'' [])])]"

definition gantt_defaults :: jsval where
  \<open>gantt_defaults = JObj
     [(''titleTopMargin'', JNum 25), (''barHeight'', JNum 20), (''barGap'', JNum 4),
      (''topPadding'', JNum 50), (''sidePadding'', JNum 75),
      (''gridLineStartPadding'', JNum 35), (''fontSize'', JNum 11),
      (''fontFamily'', JStr ''"Open-Sans", "sans-serif"''),
      (''numberSectionStyles'', JNum 3), (''axisFormatter'', axisFormatter_default)]\<close>

definition default_config :: "(string \<times> jsval) list" where
  "default_config =
     [(''cloneCssStyles'', JBool True), (''startOnLoad'', JBool True),
      (''flowchart'', flowchart_defaults),
      (''sequenceDiagram'', sequenceDiagram_defaults),
      (''gantt'', gantt_defaults)]"
text \<open>
  The heap when the module has been loaded. \<^verbatim>\<open>Object.prototype\<close> holds its built-in
  functions, none of them enumerable; \<^verbatim>\<open>Function.prototype\<close> and \<^verbatim>\<open>Array.prototype\<close> are
  special objects. Then come the objects of the literal of lines 44 to 217, in the order in
  which it creates them: \<^verbatim>\<open>config\<close> at address 14, \<^verbatim>\<open>flowchart\<close>, \<^verbatim>\<open>sequenceDiagram\<close>,
  \<^verbatim>\<open>gantt\<close>, the array \<^verbatim>\<open>axisFormatter\<close> and its five pairs, each an array of a format and
  a function.
\<close>

definition function_object :: "string \<Rightarrow> object" where
  "function_object f =
     \<lparr>kind = Function f, own_props = [], own_hidden = [], prototype = Some Function_prototype\<rparr>"

definition array_object :: "(string \<times> val) list \<Rightarrow> object" where
  "array_object ps =
     \<lparr>kind = Array, own_props = ps, own_hidden = [(''length'', VNum (int (length ps)))],
      prototype = Some Array_prototype\<rparr>"

definition builtin_heap :: heap where
  "builtin_heap =
     [(0, \<lparr>kind = Ordinary, own_props = [],
           own_hidden = [(''constructor'', VRef 3), (''toString'', VRef 4),
             (''toLocaleString'', VRef 5), (''valueOf'', VRef 6), (''hasOwnProperty'', VRef 7),
             (''isPrototypeOf'', VRef 8), (''propertyIsEnumerable'', VRef 9),
             (''__defineGetter__'', VRef 10), (''__defineSetter__'', VRef 11),
             (''__lookupGetter__'', VRef 12), (''__lookupSetter__'', VRef 13)],
           prototype = None\<rparr>),
      (1, \<lparr>kind = Function ''Function.prototype'', own_props = [], own_hidden = [],
           prototype = Some Object_prototype\<rparr>),
      (2, \<lparr>kind = Array, own_props = [], own_hidden = [(''length'', VNum 0)],
           prototype = Some Object_prototype\<rparr>),
      (3, function_object ''Object''),
      (4, function_object ''toString''),
      (5, function_object ''toLocaleString''),
      (6, function_object ''valueOf''),
      (7, function_object ''hasOwnProperty''),
      (8, function_object ''isPrototypeOf''),
      (9, function_object ''propertyIsEnumerable''),
      (10, function_object ''__defineGetter__''),
      (11, function_object ''__defineSetter__''),
      (12, function_object ''__lookupGetter__''),
      (13, function_object ''__lookupSetter__'')]"

definition initial_heap :: heap where
  \<open>initial_heap = builtin_heap @
     [(14, ordinary_object
             [(''cloneCssStyles'', VBool True), (''startOnLoad'', VBool True),
              (''flowchart'', VRef 15), (''sequenceDiagram'', VRef 16), (''gantt'', VRef 17)]),
      (15, ordinary_object [(''htmlLabels'', VBool True), (''useMaxWidth'', VBool True)]),
      (16, ordinary_object
             [(''diagramMarginX'', VNum 50), (''diagramMarginY'', VNum 10),
              (''actorMargin'', VNum 50), (''width'', VNum 150), (''height'', VNum 65),
              (''boxMargin'', VNum 10), (''boxTextMargin'', VNum 5), (''noteMargin'', VNum 10),
              (''messageMargin'', VNum 35), (''mirrorActors'', VBool True),
              (''bottomMarginAdj'', VNum 1), (''useMaxWidth'', VBool True)]),
      (17, ordinary_object
             [(''titleTopMargin'', VNum 25), (''barHeight'', VNum 20), (''barGap'', VNum 4),
              (''topPadding'', VNum 50), (''sidePadding'', VNum 75),
              (''gridLineStartPadding'', VNum 35), (''fontSize'', VNum 11),
              (''fontFamily'', VStr ''"Open-Sans", "sans-serif"''),
              (''numberSectionStyles'', VNum 3), (''axisFormatter'', VRef 18)]),
      (18, array_object [(''0'', VRef 19), (''1'', VRef 21), (''2'', VRef 23),
                         (''3'', VRef 25), (''4'', VRef 27)]),
      (19, array_object [(''0'', VStr ''%I:%M''), (''1'', VRef 20)]),
      (20, function_object ''d.getHours()''),
      (21, array_object [(''0'', VStr ''w. %U''), (''1'', VRef 22)]),
      (22, function_object ''d.getDay() == 1''),
      (23, array_object [(''0'', VStr ''%a %d''), (''1'', VRef 24)]),
      (24, function_object ''d.getDay() && d.getDate() != 1''),
      (25, array_object [(''0'', VStr ''%b %d''), (''1'', VRef 26)]),
      (26, function_object ''d.getDate() != 1''),
      (27, array_object [(''0'', VStr ''%m-%y''), (''1'', VRef 28)]),
      (28, function_object ''d.getMonth()'')]\<close>

text \<open>The state when the module has been loaded into document \<open>d\<close>.\<close>

definition initial_world :: "dom \<Rightarrow> world" where
  "initial_world d =
     \<lparr>dom = d, heap = initial_heap, config = 14, yy = (\<lambda>p. None), calls = []\<rparr>"

definition log :: "call \<Rightarrow> world \<Rightarrow> world" where
  "log c w = w\<lparr>calls := calls w @ [c]\<rparr>"

text \<open>
  The inner loop of \<^verbatim>\<open>setConf\<close> (lines 393 to 401), over the level-2 keys still to do. Every
  property is read where the source reads it, in the order of evaluation. Line 395 reads
  \<^verbatim>\<open>config[k1]\<close>, and line 397 stores a new object there when it reads \<^verbatim>\<open>undefined\<close>.
  Line 399 reads \<^verbatim>\<open>cnf[k1][k2]\<close> and converts it to a string for the message before the
  logger is called. Line 400 reads \<^verbatim>\<open>config[k1]\<close>, which must not be \<^verbatim>\<open>undefined\<close> or
  \<^verbatim>\<open>null\<close>, then \<^verbatim>\<open>cnf[k1][k2]\<close> again, and assigns.
\<close>

definition check_coercible :: "val \<Rightarrow> world \<Rightarrow> (exn + unit) \<times> world" where
  "check_coercible v w =
     (case v of VUndefined \<Rightarrow> (Inl TypeError, w) | VNull \<Rightarrow> (Inl TypeError, w) | _ \<Rightarrow> (Inr (), w))"

definition config_get :: "env \<Rightarrow> string \<Rightarrow> world \<Rightarrow> (exn + val) \<times> world" where
  "config_get env k w = js_get env (VRef (config w)) k w"

definition config_put :: "env \<Rightarrow> string \<Rightarrow> val \<Rightarrow> world \<Rightarrow> (exn + unit) \<times> world" where
  "config_put env k v w = js_put env (VRef (config w)) k v w"

fun setConf_lvl2 ::
  "env \<Rightarrow> val \<Rightarrow> string \<Rightarrow> string list \<Rightarrow> world \<Rightarrow> (exn + unit) \<times> world" where
  "setConf_lvl2 env cnf k1 [] = (\<lambda>w. (Inr (), w))"
| "setConf_lvl2 env cnf k1 (k2 # ks) =
     and_then (config_get env k1) (\<lambda>cur.
     and_then (\<lambda>w. if typeof_val (heap w) cur = ''undefined''
                    then and_then new_object (config_put env k1) w
                    else (Inr (), w)) (\<lambda>u.
     and_then (js_get env cnf k1) (\<lambda>sub.
     and_then (js_get env sub k2) (\<lambda>v.
     and_then (concat_string env v) (\<lambda>u.
     and_then (\<lambda>w. (Inr (), log (Log_debug_setting k1 k2 (snapshot (heap w) v)) w)) (\<lambda>u.
     and_then (config_get env k1) (\<lambda>target.
     and_then (check_coercible target) (\<lambda>u.
     and_then (js_get env cnf k1) (\<lambda>sub'.
     and_then (js_get env sub' k2) (\<lambda>v'.
     and_then (js_put env target k2 v') (\<lambda>u.
     setConf_lvl2 env cnf k1 ks)))))))))))"

text \<open>
  The outer loop (lines 387 to 405), over the level-1 keys still to do: line 389 reads
  \<^verbatim>\<open>cnf[k1]\<close> for the test, line 390 reads it again for \<^verbatim>\<open>Object.keys\<close>, line 403 reads it
  and assigns.
\<close>

fun setConf_lvl1 ::
  "env \<Rightarrow> val \<Rightarrow> string list \<Rightarrow> world \<Rightarrow> (exn + unit) \<times> world" where
  "setConf_lvl1 env cnf [] = (\<lambda>w. (Inr (), w))"
| "setConf_lvl1 env cnf (k1 # ks) =
     and_then (js_get env cnf k1) (\<lambda>v.
     and_then (\<lambda>w. if typeof_val (heap w) v = ''object''
                    then and_then (js_get env cnf k1) (\<lambda>sub.
                         and_then (\<lambda>w. (object_keys env (heap w) sub, w))
                           (setConf_lvl2 env cnf k1)) w
                    else and_then (js_get env cnf k1) (config_put env k1) w) (\<lambda>u.
     setConf_lvl1 env cnf ks))"

definition setConf :: "env \<Rightarrow> val \<Rightarrow> world \<Rightarrow> (exn + unit) \<times> world" where
  "setConf env cnf =
     and_then (\<lambda>w. (object_keys env (heap w) cnf, w)) (setConf_lvl1 env cnf)"

definition initialize :: "env \<Rightarrow> val \<Rightarrow> world \<Rightarrow> (exn + unit) \<times> world" where
  "initialize env options w =
     (if typeof_val (heap w) options = ''object'' then setConf env options w else (Inr (), w))"

definition getConfig :: "world \<Rightarrow> val" where
  "getConfig w = VRef (config w)"

section \<open>d3 selections and the scratch surface\<close>

text \<open>
  \<^verbatim>\<open>d3.select(string)\<close> is \<^verbatim>\<open>document.querySelector\<close>. The string \<^verbatim>\<open>'#d' + id\<close> that
  \<^verbatim>\<open>render\<close> makes is read as a selector, whatever \<^verbatim>\<open>id\<close> holds: it selects the element
  of that id when what follows \<^verbatim>\<open>#\<close> is a plain identifier (a letter or underscore, then
  letters, digits, hyphens and underscores), and \<^verbatim>\<open>'body'\<close> selects the first \<^verbatim>\<open>body\<close>
  element. On every other string the result is the selector engine's.
\<close>

definition identifier_char :: "char \<Rightarrow> bool" where
  "identifier_char c =
     (c \<in> set ''abcdefghijklmnopqrstuvwxyzABCDEFGHIJKLMNOPQRSTUVWXYZ0123456789_-'')"

definition plain_identifier :: "string \<Rightarrow> bool" where
  "plain_identifier s =
     (case s of
        [] \<Rightarrow> False
      | c # cs \<Rightarrow>
          c \<in> set ''abcdefghijklmnopqrstuvwxyzABCDEFGHIJKLMNOPQRSTUVWXYZ_''
          \<and> list_all identifier_char cs)"

definition d3_select :: "env \<Rightarrow> string \<Rightarrow> dom \<Rightarrow> exn + path option" where
  "d3_select env s d =
     (if s = ''body'' then Inr (select_nodes (ByTag ''body'') d)
      else if s \<noteq> [] \<and> hd s = CHR ''#'' \<and> plain_identifier (tl s)
      then Inr (select_nodes (ById (tl s)) d)
      else querySelector env s d)"

text \<open>\<^verbatim>\<open>selection.node()\<close>: the node selected, \<^verbatim>\<open>null\<close> on an empty selection.\<close>

definition d3_node :: "env \<Rightarrow> string \<Rightarrow> dom \<Rightarrow> exn + node option" where
  "d3_node env s d =
     (case d3_select env s d of
        Inl e \<Rightarrow> Inl e
      | Inr None \<Rightarrow> Inr None
      | Inr (Some p) \<Rightarrow> Inr (node_at d p))"

text \<open>
  \<^verbatim>\<open>d3.select(container)\<close>: a string selects as above; a node selects itself. An element of
  the document takes what is appended to it; a path that leads to no node stands for
  \<^verbatim>\<open>null\<close> or for an element outside the document, where nothing in the document changes;
  a text node takes no child, and appending to it raises.
\<close>

definition d3_select_container :: "env \<Rightarrow> container \<Rightarrow> dom \<Rightarrow> exn + path option" where
  "d3_select_container env c d =
     (case c of
        Selector s \<Rightarrow> d3_select env s d
      | NodeRef p \<Rightarrow>
          (case node_at d p of
             Some (Elem t a ks) \<Rightarrow> Inr (Some p)
           | Some (Text s) \<Rightarrow> Inl (Thrown ''HierarchyRequestError'')
           | None \<Rightarrow> Inr None))"

text \<open>
  \<^verbatim>\<open>selection.append\<close> adds a last child to the selected element and does nothing on an
  empty selection; \<^verbatim>\<open>node.remove()\<close> takes the node and its subtree out of the tree.
\<close>

fun append_child :: "node \<Rightarrow> node \<Rightarrow> node list" where
  "append_child new (Elem t a ks) = [Elem t a (ks @ [new])]"
| "append_child new (Text s) = [Text s]"

definition d3_append :: "path option \<Rightarrow> node \<Rightarrow> dom \<Rightarrow> dom" where
  "d3_append sel new d = (case sel of None \<Rightarrow> d | Some p \<Rightarrow> modify_at (append_child new) p d)"

definition node_remove :: "path \<Rightarrow> dom \<Rightarrow> dom" where
  "node_remove p d = modify_at (\<lambda>n. []) p d"

text \<open>
  What the chain \<^verbatim>\<open>.append('div').attr('id', 'd'+id).append('svg').attr(...).append('g')\<close>
  of lines 297 to 303 (and again 306 to 312) builds.
\<close>

definition scratch_surface :: "string \<Rightarrow> node" where
  "scratch_surface ident =
     Elem ''div'' [(''id'', ''d'' @ ident)]
       [Elem ''svg'' [(''id'', ident), (''width'', ''100%''),
                      (''xmlns'', ''http://www.w3.org/2000/svg'')]
          [Elem ''g'' [] []]]"
section \<open>render\<close>

text \<open>
  \<^verbatim>\<open>utils.cloneCssStyles(element.firstChild, classes)\<close>, where \<^verbatim>\<open>element\<close> is the node found
  on line 315: reading \<^verbatim>\<open>firstChild\<close> of \<^verbatim>\<open>null\<close> raises a TypeError.
\<close>

definition first_child :: "dom \<Rightarrow> path \<Rightarrow> path option" where
  "first_child d p = (case node_at d p of Some (Elem t a (k # ks)) \<Rightarrow> Some (p @ [0]) | _ \<Rightarrow> None)"

definition cloneCssStyles ::
  "env \<Rightarrow> path option \<Rightarrow> jsval \<Rightarrow> world \<Rightarrow> (exn + unit) \<times> world" where
  "cloneCssStyles env element classes w =
     (case element of
        None \<Rightarrow> (Inl TypeError, w)
      | Some p \<Rightarrow>
          and_then (do_call env (Utils_cloneCssStyles (first_child (dom w) p) classes))
            (\<lambda>r w'. (Inr (), w')) w)"
text \<open>
  Lines 296 to 313: the scratch surface goes under the container when one is given, under
  \<^verbatim>\<open>body\<close> otherwise. The exception of the selection leaves \<^verbatim>\<open>render\<close>.
\<close>

definition render_setup :: "env \<Rightarrow> string \<Rightarrow> container option \<Rightarrow> world \<Rightarrow> (exn + unit) \<times> world" where
  "render_setup env ident container w =
     (case (case container of
              Some c \<Rightarrow> d3_select_container env c (dom w)
            | None \<Rightarrow> d3_select env ''body'' (dom w)) of
        Inl e \<Rightarrow> (Inl e, w)
      | Inr sel \<Rightarrow> (Inr (), w\<lparr>dom := d3_append sel (scratch_surface ident) (dom w)\<rparr>))"

text \<open>
  Lines 315 to 355: look the scratch node up, detect the type, and run the renderer of that
  type; no case of the \<^verbatim>\<open>switch\<close> matches any other type. \<^verbatim>\<open>config.flowchart\<close> and the
  like are read when the call is made, \<^verbatim>\<open>config.cloneCssStyles\<close> after the drawing.
\<close>

definition render_dispatch :: "env \<Rightarrow> string \<Rightarrow> string \<Rightarrow> world \<Rightarrow> (exn + unit) \<times> world" where
  "render_dispatch env ident txt w =
     (case d3_select env (''#d'' @ ident) (dom w) of
        Inl e \<Rightarrow> (Inl e, w)
      | Inr element \<Rightarrow>
     (let graphType = detectType env txt
      in
      if graphType = ''graph'' then
        and_then (config_get env ''flowchart'') (\<lambda>conf.
        and_then (\<lambda>w'. do_call env (FlowRenderer_setConf (snapshot (heap w') conf)) w') (\<lambda>r.
        and_then (do_call env (FlowRenderer_draw txt ident False)) (\<lambda>r.
        and_then (config_get env ''cloneCssStyles'') (\<lambda>flag.
          if to_boolean flag then
            and_then (do_call env (FlowRenderer_getClasses txt False))
              (\<lambda>classes. cloneCssStyles env element classes)
          else (\<lambda>w'. (Inr (), w')))))) w
      else if graphType = ''dotGraph'' then
        and_then (config_get env ''flowchart'') (\<lambda>conf.
        and_then (\<lambda>w'. do_call env (FlowRenderer_setConf (snapshot (heap w') conf)) w') (\<lambda>r.
        and_then (do_call env (FlowRenderer_draw txt ident True)) (\<lambda>r.
        and_then (config_get env ''cloneCssStyles'') (\<lambda>flag.
          if to_boolean flag then
            and_then (do_call env (FlowRenderer_getClasses txt True))
              (\<lambda>classes. cloneCssStyles env element classes)
          else (\<lambda>w'. (Inr (), w')))))) w
      else if graphType = ''sequenceDiagram'' then
        and_then (config_get env ''sequenceDiagram'') (\<lambda>conf.
        and_then (\<lambda>w'. do_call env (Seq_setConf (snapshot (heap w') conf)) w') (\<lambda>r.
        and_then (do_call env (Seq_draw txt ident)) (\<lambda>r.
        and_then (config_get env ''cloneCssStyles'') (\<lambda>flag.
          if to_boolean flag then cloneCssStyles env element (JObj [])
          else (\<lambda>w'. (Inr (), w')))))) w
      else if graphType = ''gantt'' then
        and_then (config_get env ''gantt'') (\<lambda>conf.
        and_then (\<lambda>w'. do_call env (Gantt_setConf (snapshot (heap w') conf)) w') (\<lambda>r.
        and_then (do_call env (Gantt_draw txt ident)) (\<lambda>r.
        and_then (config_get env ''cloneCssStyles'') (\<lambda>flag.
          if to_boolean flag then cloneCssStyles env element (JObj [])
          else (\<lambda>w'. (Inr (), w')))))) w
      else if graphType = ''info'' then
        and_then (do_call env (Info_draw txt ident (version env))) (\<lambda>r.
        and_then (config_get env ''cloneCssStyles'') (\<lambda>flag.
          if to_boolean flag then cloneCssStyles env element (JObj [])
          else (\<lambda>w'. (Inr (), w')))) w
      else (Inr (), w)))"

text \<open>
  \<^verbatim>\<open>String.prototype.replace\<close> with the global pattern \<^verbatim>\<open>/url\(#arrowhead/g\<close>, which matches
  that literal text: from left to right, each match is replaced and the search goes on after
  it. The replacement is a template: \<^verbatim>\<open>$$\<close> stands for a dollar sign, \<^verbatim>\<open>$&\<close> for the match,
  \<^verbatim>\<open>$`\<close> for the text before the match and \<^verbatim>\<open>$'\<close> for the text after it (the pattern has no
  groups, so \<^verbatim>\<open>$1\<close> stands for itself). \<open>preceding\<close> is the text already passed.
\<close>

fun get_substitution :: "string \<Rightarrow> string \<Rightarrow> string \<Rightarrow> string \<Rightarrow> string" where
  "get_substitution m b a [] = []"
| "get_substitution m b a [c] = [c]"
| "get_substitution m b a (c # c' # r) =
     (if c = CHR ''$'' \<and> c' = CHR ''$'' then CHR ''$'' # get_substitution m b a r
      else if c = CHR ''$'' \<and> c' = CHR ''&'' then m @ get_substitution m b a r
      else if c = CHR ''$'' \<and> c' = CHR 0x60 then b @ get_substitution m b a r
      else if c = CHR ''$'' \<and> c' = CHR 0x27 then a @ get_substitution m b a r
      else c # get_substitution m b a (c' # r))"

function replace_global :: "string \<Rightarrow> string \<Rightarrow> string \<Rightarrow> string \<Rightarrow> string" where
  "replace_global pat tmpl preceding [] = []"
| "replace_global pat tmpl preceding (c # cs) =
     (if pat \<noteq> [] \<and> prefix pat (c # cs)
      then get_substitution pat preceding (drop (length pat) (c # cs)) tmpl
           @ replace_global pat tmpl (preceding @ pat) (drop (length pat) (c # cs))
      else c # replace_global pat tmpl (preceding @ [c]) cs)"
  by pat_completeness auto
termination
  by (relation "measure (\<lambda>(pat, tmpl, preceding, s). length s)") auto

text \<open>
  Line 358.
\<close>

definition svgCode :: "env \<Rightarrow> string \<Rightarrow> string" where
  "svgCode env html =
     replace_global ''url(#arrowhead''
       (''url('' @ protocol env @ ''//'' @ host env @ pathname env @ ''#arrowhead'') [] html"
text \<open>
  Lines 358 to 364: the lookup of \<^verbatim>\<open>'#d' + id\<close> may raise; reading \<^verbatim>\<open>innerHTML\<close> of
  \<^verbatim>\<open>null\<close> raises a TypeError when it finds nothing; calling a value that is not a function
  raises one too.
\<close>

definition render_package :: "env \<Rightarrow> string \<Rightarrow> callback option \<Rightarrow> world \<Rightarrow> (exn + unit) \<times> world" where
  "render_package env ident cb w =
     (case d3_node env (''#d'' @ ident) (dom w) of
        Inl e \<Rightarrow> (Inl e, w)
      | Inr None \<Rightarrow> (Inl TypeError, w)
      | Inr (Some n) \<Rightarrow>
          (case cb of
             Some (CbFunction f) \<Rightarrow>
               (case f (svgCode env (innerHTML env n)) (dom w) of
                  (r, d') \<Rightarrow> (r, w\<lparr>dom := d', calls := calls w @ [Cb (svgCode env (innerHTML env n))]\<rparr>))
           | Some CbNotCallable \<Rightarrow> (Inl TypeError, w)
           | None \<Rightarrow> (Inr (), log (Log_warn ''CB = undefined'') w)))"

text \<open>
  Lines 366 to 369. The second lookup, on line 368, is of the same string in the same
  document and finds the same node.
\<close>

definition render_teardown :: "env \<Rightarrow> string \<Rightarrow> world \<Rightarrow> (exn + unit) \<times> world" where
  "render_teardown env ident w =
     (case d3_select env (''#d'' @ ident) (dom w) of
        Inl e \<Rightarrow> (Inl e, w)
      | Inr None \<Rightarrow> (Inr (), w)
      | Inr (Some p) \<Rightarrow>
          if node_remove_is_function env then (Inr (), w\<lparr>dom := node_remove p (dom w)\<rparr>)
          else (Inr (), w))"

definition render ::
  "env \<Rightarrow> string \<Rightarrow> string \<Rightarrow> callback option \<Rightarrow> container option \<Rightarrow> world \<Rightarrow> (exn + unit) \<times> world" where
  "render env ident txt cb container =
     and_then (render_setup env ident container) (\<lambda>u.
     and_then (render_dispatch env ident txt) (\<lambda>u.
     and_then (render_package env ident cb) (\<lambda>u.
       render_teardown env ident)))"

definition exports_render ::
  "env \<Rightarrow> string \<Rightarrow> string \<Rightarrow> callback option \<Rightarrow> container option \<Rightarrow> world \<Rightarrow> (exn + unit) \<times> world" where
  "exports_render env ident text cb containerElement w =
     (if \<not> document_defined env then (Inr (), w)
      else render env ident text cb containerElement w)"

section \<open>parse\<close>

text \<open>
  The \<^verbatim>\<open>switch\<close> of lines 229 to 250 chooses the parser and binds its model
  (\<^verbatim>\<open>parser.parser.yy\<close>); with no case matched \<^verbatim>\<open>parser\<close> stays \<^verbatim>\<open>undefined\<close>, and
  \<^verbatim>\<open>parser.parse(text)\<close> raises a TypeError inside the \<^verbatim>\<open>try\<close>. The \<^verbatim>\<open>catch\<close> turns every
  exception into \<^verbatim>\<open>false\<close>.
\<close>

fun parser_of :: "string \<Rightarrow> (parser \<times> db) option" where
  "parser_of graphType =
     (if graphType = ''graph'' then Some (FlowParser, Graph)
      else if graphType = ''dotGraph'' then Some (DotParser, Graph)
      else if graphType = ''sequenceDiagram'' then Some (SequenceParser, SequenceDb)
      else if graphType = ''info'' then Some (InfoParser, InfoDb)
      else if graphType = ''gantt'' then Some (GanttParser, GanttDb)
      else None)"

definition parse :: "env \<Rightarrow> string \<Rightarrow> world \<Rightarrow> (exn + bool) \<times> world" where
  "parse env text w =
     (case parser_of (detectType env text) of
        None \<Rightarrow> (Inr False, w)
      | Some (parser, model) \<Rightarrow>
          (case do_call env (Parser_parse parser text) (w\<lparr>yy := (yy w)(parser \<mapsto> model)\<rparr>) of
             (Inl err, w') \<Rightarrow> (Inr False, w')
           | (Inr r, w') \<Rightarrow> (Inr True, w')))"

section \<open>Notions used in the statements\<close>

text \<open>
  The calls that go to a renderer or to the style cloning, and the calls of the callback.
\<close>

fun is_renderer_call :: "call \<Rightarrow> bool" where
  "is_renderer_call (FlowRenderer_setConf c) = True"
| "is_renderer_call (FlowRenderer_draw t i b) = True"
| "is_renderer_call (FlowRenderer_getClasses t b) = True"
| "is_renderer_call (Seq_setConf c) = True"
| "is_renderer_call (Seq_draw t i) = True"
| "is_renderer_call (Gantt_setConf c) = True"
| "is_renderer_call (Gantt_draw t i) = True"
| "is_renderer_call (Info_draw t i v) = True"
| "is_renderer_call (Utils_cloneCssStyles n c) = True"
| "is_renderer_call c = False"

fun is_Cb :: "call \<Rightarrow> bool" where
  "is_Cb (Cb s) = True"
| "is_Cb c = False"

text \<open>
  An exception that a step of \<^verbatim>\<open>render\<close> other than the callback raises, with the state
  at the raise: a TypeError, the exception of appending to a text node, an exception of the
  selector engine or of reading a special object, or the exception of the call recorded
  last, a renderer or style cloning call. And an exception of the callback, on the markup
  recorded last.
\<close>

definition step_exception :: "env \<Rightarrow> exn \<Rightarrow> world \<Rightarrow> bool" where
  "step_exception env e w' =
     (e = TypeError \<or> e = Thrown ''HierarchyRequestError''
      \<or> (\<exists>s d. querySelector env s d = Inl e)
      \<or> (\<exists>q k a h. fst (special_get env q k a h) = Inl e)
      \<or> (\<exists>c d. calls w' \<noteq> [] \<and> last (calls w') = c \<and> is_renderer_call c
             \<and> fst (run env c d) = Inl e))"

definition step_result :: "env \<Rightarrow> (exn + 'a) \<times> world \<Rightarrow> bool" where
  "step_result env r = (case fst r of Inl e \<Rightarrow> step_exception env e (snd r) | Inr x \<Rightarrow> True)"

definition callback_exception :: "callback option \<Rightarrow> exn \<Rightarrow> world \<Rightarrow> bool" where
  "callback_exception cb e w' =
     (\<exists>f s d. cb = Some (CbFunction f) \<and> calls w' \<noteq> [] \<and> last (calls w') = Cb s
            \<and> fst (f s d) = Inl e)"

text \<open>
  The element the scratch surface is appended to, if any.
\<close>

definition anchor :: "env \<Rightarrow> container option \<Rightarrow> dom \<Rightarrow> exn + path option" where
  "anchor env container d =
     (case container of
        Some c \<Rightarrow> d3_select_container env c d
      | None \<Rightarrow> d3_select env ''body'' d)"

text \<open>
  Segments joined by a separator: the text in which the separator stands once between
  neighbouring segments.
\<close>

fun join :: "string \<Rightarrow> string list \<Rightarrow> string" where
  "join sep [] = []"
| "join sep [s] = s"
| "join sep (s # t # ts) = s @ sep @ join sep (t # ts)"

section \<open>A sample environment\<close>

text \<open>
  One environment to run the model in: a serialiser of elements, a type detector by prefix,
  a flowchart renderer that draws a path with an arrowhead marker into the \<^verbatim>\<open>svg\<close> element
  and raises on a malformed definition, a sequence renderer that draws two lines (one with
  an arrowhead marker, one with a crosshead marker), and a page with a heading.
\<close>

fun outer_html :: "node \<Rightarrow> string" where
  "outer_html (Text s) = s"
| "outer_html (Elem t a ks) =
     ''<'' @ t @ concat (map (\<lambda>(k, v). '' '' @ k @ [CHR ''='', CHR 0x22] @ v @ [CHR 0x22]) a) @ ''>''
     @ concat (map outer_html ks) @ ''</'' @ t @ ''>''"

definition demo_innerHTML :: "node \<Rightarrow> string" where
  "demo_innerHTML n = (case n of Text s \<Rightarrow> s | Elem t a ks \<Rightarrow> concat (map outer_html ks))"

definition demo_detectType :: "string \<Rightarrow> string" where
  "demo_detectType text =
     (if prefix ''sequenceDiagram'' text then ''sequenceDiagram''
      else if prefix ''digraph'' text then ''dotGraph''
      else if prefix ''info'' text then ''info''
      else if prefix ''gantt'' text then ''gantt''
      else if prefix ''graph'' text then ''graph''
      else ''unknown'')"

definition draw_into :: "string \<Rightarrow> node list \<Rightarrow> dom \<Rightarrow> dom" where
  "draw_into ident new d =
     (case select_nodes (ById ident) d of
        None \<Rightarrow> d
      | Some p \<Rightarrow> modify_at (\<lambda>n. case n of Elem t a ks \<Rightarrow> [Elem t a (ks @ new)] | Text s \<Rightarrow> [Text s]) p d)"

definition malformed :: string where
  "malformed = ''graph TB'' @ [CHR 0x0A] @ ''a--''"

fun demo_run :: "call \<Rightarrow> dom \<Rightarrow> (exn + jsval) \<times> dom" where
  "demo_run (FlowRenderer_draw txt ident isDot) d =
     (if txt = malformed then (Inl (Thrown ''Parse error''), d)
      else (Inr JUndefined,
            draw_into ident [Elem ''path'' [(''marker-end'', ''url(#arrowhead)'')] []] d))"
| "demo_run (Seq_draw txt ident) d =
     (Inr JUndefined,
      draw_into ident [Elem ''line'' [(''marker-end'', ''url(#arrowhead)'')] [],
                       Elem ''line'' [(''marker-end'', ''url(#crosshead)'')] []] d)"
| "demo_run (FlowRenderer_getClasses txt isDot) d = (Inr (JObj []), d)"
| "demo_run (Parser_parse p txt) d =
     (if txt = malformed then (Inl (Thrown ''Parse error''), d) else (Inr JUndefined, d))"
| "demo_run c d = (Inr JUndefined, d)"

text \<open>
  A selector engine for lists of simple selectors (\<^verbatim>\<open>#id\<close> or a tag name) separated by
  commas: the first element in document order that one of them matches.
\<close>

fun split_on :: "char \<Rightarrow> string \<Rightarrow> string list" where
  "split_on c [] = [[]]"
| "split_on c (x # xs) =
     (if x = c then [] # split_on c xs
      else (case split_on c xs of [] \<Rightarrow> [[x]] | s # ss \<Rightarrow> (x # s) # ss))"

definition simple_selector :: "string \<Rightarrow> selector option" where
  "simple_selector s =
     (if s \<noteq> [] \<and> hd s = CHR ''#'' \<and> plain_identifier (tl s) then Some (ById (tl s))
      else if plain_identifier s then Some (ByTag s)
      else None)"

fun path_before :: "path \<Rightarrow> path \<Rightarrow> bool" where
  "path_before [] q = True"
| "path_before (i # p) [] = False"
| "path_before (i # p) (j # q) = (i < j \<or> (i = j \<and> path_before p q))"

definition first_of :: "dom \<Rightarrow> string \<Rightarrow> path option \<Rightarrow> path option" where
  "first_of d part best =
     (case simple_selector part of
        None \<Rightarrow> best
      | Some sel \<Rightarrow>
          (case select_nodes sel d of
             None \<Rightarrow> best
           | Some p \<Rightarrow>
               (case best of
                  None \<Rightarrow> Some p
                | Some q \<Rightarrow> if path_before p q then Some p else Some q)))"

definition demo_querySelector :: "string \<Rightarrow> dom \<Rightarrow> exn + path option" where
  "demo_querySelector s d =
     (if list_all (\<lambda>part. simple_selector part \<noteq> None) (split_on CHR '','' s)
      then Inr (fold (first_of d) (split_on CHR '','' s) None)
      else Inl (Thrown ''SyntaxError''))"

definition demo_env :: env where
  "demo_env = \<lparr>detectType = demo_detectType, run = demo_run, innerHTML = demo_innerHTML,
     protocol = ''https:'', host = ''example.org'', pathname = ''/docs/'', version = ''0.5.0'',
     node_remove_is_function = True, document_defined = True,
     querySelector = demo_querySelector,
     special_get = (\<lambda>q k a h. (Inr VUndefined, h)),
     special_put = (\<lambda>q k a v h. (Inr (), h)),
     primitive_get = (\<lambda>v k. VUndefined),
     primitive_keys = (\<lambda>v. Inl TypeError),
     to_primitive = (\<lambda>a h. (Inr ''[object Object]'', h))\<rparr>"

definition demo_page :: dom where
  "demo_page = [Elem ''html'' [] [Elem ''head'' [] [], Elem ''body'' [] [Elem ''h1'' [] [Text ''Docs'']]]]"

definition demo_cb :: callback where
  "demo_cb = CbFunction (\<lambda>svg d. (Inr (), d))"

definition demo_cb_raising :: callback where
  "demo_cb_raising = CbFunction (\<lambda>svg d. (Inl (Thrown ''callback''), d))"

definition demo_world :: world where
  "demo_world = initial_world demo_page"

definition flow_markup :: "string list" where
  \<open>flow_markup =
     [''<svg id="id1" width="100%" xmlns="http://www.w3.org/2000/svg"><g></g><path marker-end="'',
      '')"></path></svg>'']\<close>

section \<open>Configuration: defaults and non-object arguments\<close>

lemma lookup_Cons [simp]:
  "lookup ((k, v) # ps) k' = (if k = k' then v else lookup ps k')"
  by (simp add: lookup_def)

lemma lookup_Nil [simp]: "lookup [] k = JUndefined"
  by (simp add: lookup_def)

lemma initial_snapshot:
  "snapshot (heap (initial_world d)) (getConfig (initial_world d)) = JObj default_config"
proof -
  have "snapshot initial_heap (VRef 14) = JObj default_config" by code_simp
  then show ?thesis by (simp add: initial_world_def getConfig_def)
qed

text \<open>
  C7. Before any \<^verbatim>\<open>initialize\<close> call \<^verbatim>\<open>getConfig\<close> returns exactly the declared defaults:
  the five level-1 keys \<^verbatim>\<open>cloneCssStyles\<close> and \<^verbatim>\<open>startOnLoad\<close> (both true) and the
  namespaces \<^verbatim>\<open>flowchart\<close>, \<^verbatim>\<open>sequenceDiagram\<close> and \<^verbatim>\<open>gantt\<close> with their fixed numeric and
  boolean settings, and no \<^verbatim>\<open>info\<close> namespace. The object returned is read through to its
  leaves.
\<close>

theorem getConfig_defaults:
  "\<exists>fl sq ga ax.
     snapshot (heap (initial_world d)) (getConfig (initial_world d)) =
       JObj [(''cloneCssStyles'', JBool True), (''startOnLoad'', JBool True),
             (''flowchart'', JObj fl), (''sequenceDiagram'', JObj sq), (''gantt'', JObj ga)]
   \<and> fl = [(''htmlLabels'', JBool True), (''useMaxWidth'', JBool True)]
   \<and> sq = [(''diagramMarginX'', JNum 50), (''diagramMarginY'', JNum 10),
           (''actorMargin'', JNum 50), (''width'', JNum 150), (''height'', JNum 65),
           (''boxMargin'', JNum 10), (''boxTextMargin'', JNum 5), (''noteMargin'', JNum 10),
           (''messageMargin'', JNum 35), (''mirrorActors'', JBool True),
           (''bottomMarginAdj'', JNum 1), (''useMaxWidth'', JBool True)]
   \<and> map fst ga = [''titleTopMargin'', ''barHeight'', ''barGap'', ''topPadding'',
           ''sidePadding'', ''gridLineStartPadding'', ''fontSize'', ''fontFamily'',
           ''numberSectionStyles'', ''axisFormatter'']
   \<and> map (lookup ga) [''titleTopMargin'', ''barHeight'', ''barGap'', ''topPadding'',
           ''sidePadding'', ''gridLineStartPadding'', ''fontSize'', ''numberSectionStyles'']
       = map JNum [25, 20, 4, 50, 75, 35, 11, 3]
   \<and> lookup ga ''fontFamily'' = JStr (CHR 0x22 # ''Open-Sans'' @ CHR 0x22 # '', '' @
           CHR 0x22 # ''sans-serif'' @ [CHR 0x22])
   \<and> lookup ga ''axisFormatter'' = JObj ax
   \<and> map (\<lambda>i. get_prop (lookup ax i) ''0'') [''0'', ''1'', ''2'', ''3'', ''4'']
       = map JStr [''%I:%M'', ''w. %U'', ''%a %d'', ''%b %d'', ''%m-%y'']
   \<and> map (\<lambda>i. js_typeof (get_prop (lookup ax i) ''1'')) [''0'', ''1'', ''2'', ''3'', ''4'']
       = replicate 5 ''function''
   \<and> get_prop (snapshot (heap (initial_world d)) (getConfig (initial_world d))) ''info''
       = JUndefined"
  by (simp add: initial_snapshot default_config_def flowchart_defaults_def
      sequenceDiagram_defaults_def gantt_defaults_def axisFormatter_default_def
      numeral_eq_Suc)

text \<open>
  C10. An argument whose \<^verbatim>\<open>typeof\<close> is not \<^verbatim>\<open>'object'\<close> (undefined, a string, a number,
  a boolean, a function) leaves the whole state, and so every level-1 and level-2
  configuration key, as it was, and \<^verbatim>\<open>initialize\<close> returns normally.
\<close>

theorem initialize_non_object:
  "typeof_val (heap w) options \<noteq> ''object'' \<Longrightarrow> initialize env options w = (Inr (), w)"
  by (simp add: initialize_def)

theorem initialize_non_object_witness:
  "typeof_val (heap (initial_world [])) (VStr ''dark'') \<noteq> ''object''
   \<and> initialize demo_env (VStr ''dark'') (initial_world []) = (Inr (), initial_world [])
   \<and> snapshot (heap (snd (initialize demo_env (VStr ''dark'') (initial_world []))))
        (getConfig (snd (initialize demo_env (VStr ''dark'') (initial_world []))))
       = JObj default_config"
proof -
  have t: "typeof_val (heap (initial_world [])) (VStr ''dark'') \<noteq> ''object''"
    by (simp add: typeof_val_def)
  from initialize_non_object [OF t, of demo_env] t show ?thesis
    by (simp add: initial_snapshot)
qed

section \<open>Selecting, appending and removing in the tree\<close>

lemma count_nodes_append [simp]:
  "count_nodes s (xs @ ys) = count_nodes s xs + count_nodes s ys"
  by (induction xs) simp_all

lemma select_count:
  "(select_node s n = None) = (count_node s n = 0)"
  "(select_nodes s ns = None) = (count_nodes s ns = 0)"
  by (induction s n and s ns rule: select_node_select_nodes.induct)
     (auto split: option.splits)

lemma select_nodes_nonempty: "select_nodes s ns \<noteq> Some []"
proof (induction ns)
  case Nil
  then show ?case by simp
next
  case (Cons n ns)
  show ?case
  proof (cases "select_node s n")
    case None
    have "select_nodes s ns = Some q \<Longrightarrow> shift q \<noteq> []" for q
      using Cons.IH by (cases q) auto
    then show ?thesis using None by (auto simp: map_option_case split: option.splits)
  next
    case (Some p)
    then show ?thesis by simp
  qed
qed

lemma select_node_cases:
  assumes "select_node s n = Some p"
  obtains "p = []" "matches s n"
  | t a ks where "p \<noteq> []" "n = Elem t a ks" "\<not> matches s n" "select_nodes s ks = Some p"
proof (cases n)
  case (Text x)
  with assms show ?thesis by simp
next
  case (Elem t a ks)
  show ?thesis
  proof (cases "matches s n")
    case True
    with assms Elem have "p = []" by simp
    with True that(1) show ?thesis by blast
  next
    case False
    with assms Elem have sel: "select_nodes s ks = Some p" by simp
    then have "p \<noteq> []" using select_nodes_nonempty [of s ks] by auto
    with False Elem sel that(2) show ?thesis by blast
  qed
qed

lemma select_nodes_Cons_zero:
  "select_nodes s (n # ns) = Some (0 # p) \<Longrightarrow> select_node s n = Some p"
proof (cases "select_node s n")
  case None
  assume "select_nodes s (n # ns) = Some (0 # p)"
  with None obtain q where "shift q = 0 # p" by (auto simp: map_option_case split: option.splits)
  then show ?thesis by (cases q) auto
next
  case (Some q)
  assume "select_nodes s (n # ns) = Some (0 # p)"
  with Some show ?thesis by simp
qed

lemma select_nodes_Cons_Suc:
  "select_nodes s (n # ns) = Some (Suc i # p) \<Longrightarrow>
   select_node s n = None \<and> select_nodes s ns = Some (i # p)"
proof (cases "select_node s n")
  case None
  assume "select_nodes s (n # ns) = Some (Suc i # p)"
  with None obtain q where q: "select_nodes s ns = Some q" "shift q = Suc i # p"
    by (auto simp: map_option_case split: option.splits)
  then have "q = i # p" by (cases q) auto
  with q None show ?thesis by simp
next
  case (Some q)
  assume "select_nodes s (n # ns) = Some (Suc i # p)"
  with Some show ?thesis by simp
qed

lemma matches_count: "matches s n \<Longrightarrow> 0 < count_node s n"
  by (cases n) auto

lemma remove_selected_count:
  "select_nodes s ns = Some p \<Longrightarrow> count_nodes s (modify_at (\<lambda>n. []) p ns) < count_nodes s ns"
proof (induction "\<lambda>n::node. []::node list" p ns rule: modify_at.induct)
  case (1 ns)
  then show ?case using select_nodes_nonempty [of s ns] by simp
next
  case (2 i p)
  then show ?case by simp
next
  case (3 p n ns)
  from select_nodes_Cons_zero [OF 3(2)] have sel: "select_node s n = Some p" .
  from sel show ?case
  proof (cases rule: select_node_cases)
    case 1
    then show ?thesis using matches_count [of s n] by simp
  next
    case (2 t a ks)
    from 3(1) [OF 2(1) 2(2) 2(4)] show ?thesis using 2 by simp
  qed
next
  case (4 i p n ns)
  from select_nodes_Cons_Suc [OF 4(2)] have "select_nodes s ns = Some (i # p)" by simp
  from 4(1) [OF this] show ?case by simp
qed

lemma modify_at_count_le:
  assumes "\<And>n. count_nodes s (g n) \<le> count_node s n + k"
  shows "count_nodes s (modify_at g p ns) \<le> count_nodes s ns + k"
  using assms
proof (induction g p ns rule: modify_at.induct)
  case (3 f p n ns)
  show ?case
  proof (cases "p = []")
    case True
    then show ?thesis using 3(2) [of n] by simp
  next
    case False
    show ?thesis
    proof (cases n)
      case (Text x)
      with False show ?thesis by simp
    next
      case (Elem t a ks)
      from 3(1) [OF False Elem 3(2)] show ?thesis using False Elem by simp
    qed
  qed
next
  case (4 f i p n ns)
  from 4(1) [OF 4(2)] show ?case by simp
qed simp_all

lemma append_child_count_le:
  "count_nodes s (modify_at (append_child new) p ns) \<le> count_nodes s ns + count_node s new"
proof (induction "append_child new" p ns rule: modify_at.induct)
  case (3 p n ns)
  show ?case
  proof (cases n)
    case (Text x)
    then show ?thesis by simp
  next
    case (Elem t a ks)
    show ?thesis
    proof (cases "p = []")
      case True
      then show ?thesis using Elem by simp
    next
      case False
      from 3(1) [OF False Elem] show ?thesis
        using False Elem by simp
    qed
  qed
qed simp_all

lemma select_nodes_node_at:
  "select_nodes s ns = Some p \<Longrightarrow> \<exists>n. node_at ns p = Some n \<and> matches s n"
proof (induction ns p rule: node_at.induct)
  case (1 ns)
  then show ?case using select_nodes_nonempty [of s ns] by simp
next
  case (2 i p)
  then show ?case by simp
next
  case (3 n ns p)
  from select_nodes_Cons_zero [OF 3(2)] have sel: "select_node s n = Some p" .
  from sel show ?case
  proof (cases rule: select_node_cases)
    case 1
    then show ?thesis by simp
  next
    case (2 t a ks)
    from 3(1) [OF 2(1) 2(2) 2(4)] show ?thesis using 2 by simp
  qed
next
  case (4 n ns i p)
  from select_nodes_Cons_Suc [OF 4(2)] have "select_nodes s ns = Some (i # p)" by simp
  from 4(1) [OF this] show ?case by simp
qed

lemma select_nodes_snoc:
  "count_nodes s ks = 0 \<Longrightarrow> matches s new \<Longrightarrow> select_nodes s (ks @ [new]) = Some [length ks]"
proof (induction ks)
  case Nil
  then show ?case by (cases new) auto
next
  case (Cons k ks)
  then have "select_node s k = None" by (simp add: select_count)
  with Cons show ?case by simp
qed

lemma select_nodes_appended:
  "count_nodes s ns = 0 \<Longrightarrow> node_at ns p = Some (Elem t a ks) \<Longrightarrow> matches s new \<Longrightarrow>
   select_nodes s (modify_at (append_child new) p ns) = Some (p @ [length ks])"
proof (induction "append_child new" p ns rule: modify_at.induct)
  case (3 p n ns)
  show ?case
  proof (cases "p = []")
    case True
    with 3(3) have n: "n = Elem t a ks" by simp
    have "count_nodes s ks = 0" "\<not> matches s (Elem t a ks)" using 3(2) n by (auto split: if_splits)
    then show ?thesis
      using True n select_nodes_snoc [OF _ 3(4), of ks]
      by simp
  next
    case False
    with 3(3) obtain t' a' ks' where n: "n = Elem t' a' ks'" "node_at ks' p = Some (Elem t a ks)"
      by (cases n) auto
    have c: "count_nodes s ks' = 0" "\<not> matches s (Elem t' a' ks')"
      using 3(2) n by (auto split: if_splits)
    from 3(1) [OF False n(1) c(1) n(2) 3(4)] show ?thesis
      using False n c by simp
  qed
next
  case (4 i p n ns)
  have "select_node s n = None" "count_nodes s ns = 0" using 4(2) by (simp_all add: select_count)
  with 4(1) [OF _ _ 4(4)] 4(3) show ?case by simp
qed simp_all

lemma node_at_appended:
  "node_at ns p = Some (Elem t a ks) \<Longrightarrow>
   node_at (modify_at (append_child new) p ns) (p @ [length ks]) = Some new"
proof (induction "append_child new" p ns rule: modify_at.induct)
  case (3 p n ns)
  show ?case
  proof (cases "p = []")
    case True
    with 3(2) have n: "n = Elem t a ks" by simp
    have "node_at (ks @ [new]) [length ks] = Some new"
      by (induction ks) simp_all
    then show ?thesis using True n by simp
  next
    case False
    with 3(2) obtain t' a' ks' where n: "n = Elem t' a' ks'" "node_at ks' p = Some (Elem t a ks)"
      by (cases n) auto
    from 3(1) [OF False n] show ?thesis using False n by simp
  qed
qed simp_all

lemma draw_into_count:
  assumes "count_nodes s new = 0"
  shows "count_nodes s (draw_into ident new d) \<le> count_nodes s d"
proof (cases "select_nodes (ById ident) d")
  case None
  then show ?thesis by (simp add: draw_into_def)
next
  case (Some p)
  have "count_nodes s (case n of Elem t a ks \<Rightarrow> [Elem t a (ks @ new)] | Text x \<Rightarrow> [Text x])
        \<le> count_node s n + 0" for n
    using assms by (cases n) simp_all
  from modify_at_count_le [of s _ 0, OF this] Some show ?thesis
    by (simp add: draw_into_def)
qed

lemma demo_run_count:
  "count_nodes (ById ''did1'') (snd (demo_run c d)) \<le> count_nodes (ById ''did1'') d"
  by (cases c) (simp_all add: draw_into_count)


section \<open>Replacing every match\<close>

lemma get_substitution_plain:
  "CHR ''$'' \<notin> set tmpl \<Longrightarrow> get_substitution m b a tmpl = tmpl"
  by (induction m b a tmpl rule: get_substitution.induct) auto

lemma prefix_within:
  assumes "prefix xs (ys @ zs)" and "length xs \<le> length ys"
  shows "prefix xs ys"
proof -
  from assms(1) obtain us where "ys @ zs = xs @ us" by (auto simp: prefix_def)
  then have "take (length xs) (ys @ zs) = xs" by simp
  then have "take (length xs) ys = xs" using assms(2) by simp
  then show ?thesis by (metis take_is_prefix)
qed

lemma replace_global_none:
  "\<not> sublist pat s \<Longrightarrow> replace_global pat tmpl b s = s"
proof (induction s arbitrary: b)
  case Nil
  then show ?case by simp
next
  case (Cons c cs)
  have np: "\<not> prefix pat (c # cs)" using Cons.prems by auto
  have ns: "\<not> sublist pat cs" using Cons.prems by (simp add: sublist_Cons_right)
  show ?case using np Cons.IH [OF ns] by simp
qed

lemma replace_global_first:
  assumes "pat \<noteq> []" and "CHR ''$'' \<notin> set tmpl" and "\<not> sublist pat (a @ butlast pat)"
  shows "replace_global pat tmpl b (a @ pat @ r) = a @ tmpl @ replace_global pat tmpl (b @ a @ pat) r"
  using assms(3)
proof (induction a arbitrary: b)
  case Nil
  obtain p ps where pat: "pat = p # ps" using assms(1) by (cases pat) auto
  have "replace_global pat tmpl b (p # ps @ r) =
        get_substitution pat b (drop (length pat) (p # ps @ r)) tmpl
        @ replace_global pat tmpl (b @ pat) (drop (length pat) (p # ps @ r))"
    by (simp add: pat)
  moreover have "drop (length pat) (p # ps @ r) = r" by (simp add: pat)
  ultimately show ?case
    using get_substitution_plain [OF assms(2)] by (simp add: pat)
next
  case (Cons c a)
  have np: "\<not> prefix pat (c # a @ pat @ r)"
  proof
    assume pr: "prefix pat (c # a @ pat @ r)"
    have eq: "c # a @ pat @ r = ((c # a) @ butlast pat) @ ([last pat] @ r)"
      using assms(1) by simp
    have len: "length pat \<le> length ((c # a) @ butlast pat)" by simp
    have "prefix pat ((c # a) @ butlast pat)"
      using prefix_within [OF pr [unfolded eq] len] .
    then show False using Cons.prems by auto
  qed
  have ns: "\<not> sublist pat (a @ butlast pat)"
    using Cons.prems by (simp add: sublist_Cons_right)
  have "replace_global pat tmpl b (c # a @ pat @ r)
        = c # replace_global pat tmpl (b @ [c]) (a @ pat @ r)"
    using np by simp
  then show ?case using Cons.IH [OF ns, of "b @ [c]"] by simp
qed

lemma replace_global_join:
  assumes "pat \<noteq> []" and "CHR ''$'' \<notin> set tmpl"
    and "segs \<noteq> []" and "\<forall>seg\<in>set segs. \<not> sublist pat (seg @ butlast pat)"
  shows "replace_global pat tmpl b (join pat segs) = join tmpl segs"
  using assms(3,4)
proof (induction segs arbitrary: b rule: induct_list012)
  case 1
  then show ?case by simp
next
  case (2 s)
  have "\<not> sublist pat s"
  proof
    assume "sublist pat s"
    then have "sublist pat (s @ butlast pat)" by (simp add: sublist_append)
    with 2 show False by simp
  qed
  then show ?case by (simp add: replace_global_none)
next
  case (3 s t ts)
  have s: "\<not> sublist pat (s @ butlast pat)" using 3(4) by simp
  have rest: "\<forall>seg\<in>set (t # ts). \<not> sublist pat (seg @ butlast pat)" using 3(4) by simp
  have "replace_global pat tmpl b (s @ pat @ join pat (t # ts))
        = s @ tmpl @ replace_global pat tmpl (b @ s @ pat) (join pat (t # ts))"
    using replace_global_first [OF assms(1,2) s] .
  also have "replace_global pat tmpl (b @ s @ pat) (join pat (t # ts)) = join tmpl (t # ts)"
    using 3(2) [OF _ rest] by simp
  finally show ?case by simp
qed

lemma border_free:
  assumes "pat = u # rest" and "u \<notin> set rest" and "\<not> sublist pat seg"
  shows "\<not> sublist pat (seg @ butlast pat)"
proof
  assume "sublist pat (seg @ butlast pat)"
  then obtain ps ss where eq: "seg @ butlast pat = ps @ pat @ ss"
    by (auto simp: sublist_def)
  have lb: "length (butlast pat) < length pat" using assms(1) by simp
  from eq consider us where "seg = ps @ us" "us @ butlast pat = pat @ ss"
    | us where "seg @ us = ps" "butlast pat = us @ pat @ ss"
    by (auto simp: append_eq_append_conv2)
  then show False
  proof cases
    case 1
    show False
    proof (cases us)
      case Nil
      with 1(2) have "length (butlast pat) = length (pat @ ss)" by simp
      with lb show False by simp
    next
      case (Cons c us')
      with 1(2) assms(1) have c: "c = u" and tl: "us' @ butlast pat = rest @ ss" by auto
      from tl consider vs where "us' = rest @ vs" "vs @ butlast pat = ss"
        | vs where "us' @ vs = rest" "butlast pat = vs @ ss"
        by (auto simp: append_eq_append_conv2)
      then show False
      proof cases
        case 1
        then have "seg = ps @ pat @ vs" using \<open>seg = ps @ us\<close> Cons c assms(1) by simp
        then show False using assms(3) by (auto simp: sublist_def)
      next
        case 2
        show False
        proof (cases vs)
          case Nil
          then have "seg = ps @ pat @ []" using 2(1) \<open>seg = ps @ us\<close> Cons c assms(1) by simp
          then show False using assms(3) by (metis sublist_appendI)
        next
          case (Cons v vs')
          have "butlast pat \<noteq> []" using 2(2) Cons by simp
          then have "hd (butlast pat) = u" using assms(1) by (cases rest) auto
          with 2(2) Cons have "v = u" by (cases "butlast pat") auto
          then have "u \<in> set rest" using 2(1) Cons by auto
          with assms(2) show False by simp
        qed
      qed
    qed
  next
    case 2
    then have "length (butlast pat) = length (us @ pat @ ss)" by simp
    with lb show False by simp
  qed
qed

lemma arrowhead_border_free:
  "\<not> sublist ''url(#arrowhead'' seg \<Longrightarrow>
   \<not> sublist ''url(#arrowhead'' (seg @ butlast ''url(#arrowhead'')"
  by (rule border_free [where u = "CHR ''u''" and rest = "''rl(#arrowhead''"]) simp_all

lemma svgCode_join:
  assumes "CHR ''$'' \<notin> set (protocol env @ host env @ pathname env)"
    and "segs \<noteq> []" and "\<forall>seg\<in>set segs. \<not> sublist ''url(#arrowhead'' seg"
  shows "svgCode env (join ''url(#arrowhead'' segs)
         = join (''url('' @ protocol env @ ''//'' @ host env @ pathname env @ ''#arrowhead'') segs"
proof -
  have t: "CHR ''$'' \<notin> set (''url('' @ protocol env @ ''//'' @ host env @ pathname env @ ''#arrowhead'')"
    using assms(1) by simp
  have b: "\<forall>seg\<in>set segs. \<not> sublist ''url(#arrowhead'' (seg @ butlast ''url(#arrowhead'')"
    using assms(3) arrowhead_border_free by blast
  show ?thesis
    unfolding svgCode_def
    by (rule replace_global_join [OF _ t assms(2) b]) simp
qed

text \<open>
  Every text is such a join: it splits at the occurrences of the pattern into segments free
  of it.
\<close>

lemma join_Cons_head: "c # join sep (seg # segs) = join sep ((c # seg) # segs)"
  by (cases segs) simp_all

lemma markup_segments:
  assumes "pat \<noteq> []"
  shows "\<exists>segs. segs \<noteq> [] \<and> s = join pat segs \<and> (\<forall>seg\<in>set segs. \<not> sublist pat seg)"
proof (induction s)
  case Nil
  have "[] = join pat [[]]" by simp
  moreover have "\<not> sublist pat []" using assms by simp
  ultimately show ?case by (intro exI [of _ "[[]]"]) simp
next
  case (Cons c s)
  then obtain segs where segs: "segs \<noteq> []" "s = join pat segs"
    "\<forall>seg\<in>set segs. \<not> sublist pat seg" by blast
  then obtain seg rest where sr: "segs = seg # rest" by (cases segs) auto
  show ?case
  proof (cases "sublist pat (c # seg)")
    case False
    have "c # s = join pat ((c # seg) # rest)" using segs(2) sr by (simp add: join_Cons_head)
    moreover have "\<forall>x\<in>set ((c # seg) # rest). \<not> sublist pat x" using False segs(3) sr by simp
    ultimately show ?thesis by blast
  next
    case True
    have "\<not> sublist pat seg" using segs(3) sr by simp
    with True have "prefix pat (c # seg)" by (simp add: sublist_Cons_right)
    then obtain t where t: "c # seg = pat @ t" by (auto simp: prefix_def)
    have "suffix t seg"
    proof -
      from assms obtain p ps where "pat = p # ps" by (cases pat) auto
      with t have "seg = ps @ t" by simp
      then show ?thesis by (auto simp: suffix_def)
    qed
    then have nt: "\<not> sublist pat t"
      using \<open>\<not> sublist pat seg\<close> by (meson sublist_order.order.trans suffix_imp_sublist)
    have "c # s = join pat ((c # seg) # rest)" using segs(2) sr by (simp add: join_Cons_head)
    also have "\<dots> = join pat ([] # t # rest)" using t by (cases rest) simp_all
    finally have e: "c # s = join pat ([] # t # rest)" .
    have "\<forall>x\<in>set ([] # t # rest). \<not> sublist pat x" using nt segs(3) sr assms by simp
    with e show ?thesis by blast
  qed
qed


section \<open>The steps of render\<close>

lemma pair_fst: "fst x = a \<Longrightarrow> x = (a, snd x)"
  by (cases x) simp

lemma render_steps:
  "render env ident txt cb container w =
     (case render_setup env ident container w of
        (Inl e, w0) \<Rightarrow> (Inl e, w0)
      | (Inr u0, w0) \<Rightarrow>
          (case render_dispatch env ident txt w0 of
             (Inl e, w1) \<Rightarrow> (Inl e, w1)
           | (Inr u1, w1) \<Rightarrow>
               (case render_package env ident cb w1 of
                  (Inl e, w2) \<Rightarrow> (Inl e, w2)
                | (Inr u2, w2) \<Rightarrow> render_teardown env ident w2)))"
  by (simp add: render_def and_then_def split: prod.splits sum.splits)

lemma d3_select_plain:
  "plain_identifier i \<Longrightarrow> d3_select env (CHR ''#'' # i) d = Inr (select_nodes (ById i) d)"
  by (simp add: d3_select_def)

lemma scratch_surface_count: "count_node (ById (CHR ''d'' # ident)) (scratch_surface ident) = 1"
  by (simp add: scratch_surface_def)

lemma render_setup_count:
  assumes "render_setup env ident container w = (Inr u, w0)"
  shows "count_nodes (ById (''d'' @ ident)) (dom w0) \<le> Suc (count_nodes (ById (''d'' @ ident)) (dom w))"
proof -
  have "count_nodes (ById (''d'' @ ident)) (d3_append t (scratch_surface ident) (dom w))
     \<le> Suc (count_nodes (ById (''d'' @ ident)) (dom w))" for t
    using append_child_count_le [of "ById (''d'' @ ident)" "scratch_surface ident" _ "dom w"]
    by (cases t) (simp_all add: d3_append_def scratch_surface_count)
  with assms show ?thesis
    by (auto simp: render_setup_def split: sum.splits)
qed

lemma render_teardown_select:
  assumes "node_remove_is_function env"
    and "plain_identifier (''d'' @ ident)"
    and "count_nodes (ById (''d'' @ ident)) (dom w) \<le> 1"
  shows "\<exists>w'. render_teardown env ident w = (Inr (), w')
     \<and> count_nodes (ById (''d'' @ ident)) (dom w') = 0
     \<and> d3_select env (''#d'' @ ident) (dom w') = Inr None
     \<and> calls w' = calls w"
proof -
  have sel: "d3_select env (CHR ''#'' # CHR ''d'' # ident) d
             = Inr (select_nodes (ById (CHR ''d'' # ident)) d)" for d
    using d3_select_plain [OF assms(2)] by simp
  show ?thesis
  proof (cases "select_nodes (ById (''d'' @ ident)) (dom w)")
    case None
    then have "count_nodes (ById (''d'' @ ident)) (dom w) = 0" by (simp add: select_count)
    with None show ?thesis by (simp add: render_teardown_def sel)
  next
    case (Some p)
    then have "count_nodes (ById (''d'' @ ident)) (node_remove p (dom w))
               < count_nodes (ById (''d'' @ ident)) (dom w)"
      unfolding node_remove_def by (rule remove_selected_count)
    with assms(3) have z: "count_nodes (ById (''d'' @ ident)) (node_remove p (dom w)) = 0" by simp
    then have "select_nodes (ById (''d'' @ ident)) (node_remove p (dom w)) = None"
      by (simp add: select_count)
    with Some assms(1) z show ?thesis by (simp add: render_teardown_def sel)
  qed
qed

lemma and_then_calls:
  assumes "\<exists>new. calls (snd (m w)) = calls w @ new \<and> list_all P new"
    and "\<And>x w'. \<exists>new. calls (snd (f x w')) = calls w' @ new \<and> list_all P new"
  shows "\<exists>new. calls (snd (and_then m f w)) = calls w @ new \<and> list_all P new"
proof (cases "m w")
  case (Pair r w1)
  from assms(1) Pair obtain n1 where n1: "calls w1 = calls w @ n1" "list_all P n1" by auto
  show ?thesis
  proof (cases r)
    case (Inl e)
    with Pair n1 show ?thesis by (simp add: and_then_def)
  next
    case (Inr x)
    from assms(2) [of x w1] obtain n2 where
      n2: "calls (snd (f x w1)) = calls w1 @ n2" "list_all P n2" by auto
    have "calls (snd (and_then m f w)) = calls w @ (n1 @ n2)"
      using Pair Inr n1 n2 by (simp add: and_then_def)
    moreover have "list_all P (n1 @ n2)" using n1 n2 by simp
    ultimately show ?thesis by blast
  qed
qed

lemma do_call_calls:
  "P c \<Longrightarrow> \<exists>new. calls (snd (do_call env c w)) = calls w @ new \<and> list_all P new"
  by (cases "run env c (dom w)") (simp add: do_call_def)

lemma return_calls: "\<exists>new. calls w = calls w @ new \<and> list_all P new"
  by (rule exI [of _ "[]"]) simp

lemma js_get_frame:
  "dom (snd (js_get env v k w)) = dom w \<and> calls (snd (js_get env v k w)) = calls w
   \<and> config (snd (js_get env v k w)) = config w \<and> yy (snd (js_get env v k w)) = yy w"
  by (simp add: js_get_def split: val.splits found.splits prod.splits)

lemma config_get_calls:
  "\<exists>new. calls (snd (config_get env k w)) = calls w @ new \<and> list_all P new"
  by (rule exI [of _ "[]"]) (simp add: config_get_def js_get_frame)

lemma cloneCssStyles_calls:
  "\<exists>new. calls (snd (cloneCssStyles env element classes w)) = calls w @ new
     \<and> list_all is_renderer_call new"
proof (cases element)
  case None
  then show ?thesis by (simp add: cloneCssStyles_def)
next
  case (Some p)
  have "\<exists>new. calls (snd (and_then
          (do_call env (Utils_cloneCssStyles (first_child (dom w) p) classes))
          (\<lambda>r w'. (Inr (), w')) w)) = calls w @ new \<and> list_all is_renderer_call new"
    by (rule and_then_calls [OF do_call_calls]) simp_all
  with Some show ?thesis by (simp add: cloneCssStyles_def)
qed

lemma render_dispatch_calls:
  "\<exists>new. calls (snd (render_dispatch env ident txt w)) = calls w @ new
     \<and> list_all is_renderer_call new"
proof (cases "d3_select env (''#d'' @ ident) (dom w)")
  case (Inl e)
  then show ?thesis by (simp add: render_dispatch_def)
next
  case (Inr element)
  then show ?thesis
    unfolding render_dispatch_def Let_def
    by (auto intro!: and_then_calls do_call_calls cloneCssStyles_calls return_calls
          config_get_calls)
qed

lemma render_setup_calls: "calls (snd (render_setup env ident container w)) = calls w"
  by (simp add: render_setup_def split: sum.splits option.splits)

lemma render_teardown_calls: "calls (snd (render_teardown env ident w)) = calls w"
  by (simp add: render_teardown_def split: sum.splits option.splits)

lemma renderer_call_not_Cb: "list_all is_renderer_call new \<Longrightarrow> filter is_Cb new = []"
proof (induction new)
  case Nil
  then show ?case by simp
next
  case (Cons c new)
  then show ?case by (cases c) simp_all
qed

lemma render_after_dispatch:
  assumes "render_setup env ident container w = (Inr u0, w0)"
    and "render_dispatch env ident txt w0 = (Inr u, w1)"
  shows "render env ident txt cb container w =
         (case render_package env ident cb w1 of
            (Inl e, w2) \<Rightarrow> (Inl e, w2)
          | (Inr u', w2) \<Rightarrow> render_teardown env ident w2)"
  using assms by (simp add: render_steps)

lemma render_calls_callback:
  assumes "render_setup env ident container w = (Inr u0, w0)"
    and "render_dispatch env ident txt w0 = (Inr u, w1)"
    and "d3_node env (''#d'' @ ident) (dom w1) = Inr (Some n)"
  shows "calls (snd (render env ident txt (Some (CbFunction f)) container w))
         = calls w1 @ [Cb (svgCode env (innerHTML env n))]"
  using assms(3)
  by (cases "f (svgCode env (innerHTML env n)) (dom w1)")
     (auto simp: render_after_dispatch [OF assms(1,2)] render_package_def render_teardown_calls
           split: sum.splits)

lemma d3_node_select:
  "d3_node env s d = Inr (Some n) \<Longrightarrow> \<exists>p. d3_select env s d = Inr (Some p)"
  by (auto simp: d3_node_def split: sum.splits option.splits)



lemma render_package_calls:
  "\<exists>new. calls (snd (render_package env ident cb w)) = calls w @ new
     \<and> list_all (\<lambda>c. \<not> is_renderer_call c) new"
proof (cases "d3_node env (''#d'' @ ident) (dom w)")
  case (Inl e)
  then show ?thesis by (simp add: render_package_def)
next
  case (Inr found)
  show ?thesis
  proof (cases found)
    case None
    with Inr show ?thesis by (simp add: render_package_def)
  next
    case (Some n)
    show ?thesis
    proof (cases cb)
      case None
      with Inr Some show ?thesis by (simp add: render_package_def log_def)
    next
      case cb: (Some c)
      show ?thesis
      proof (cases c)
        case (CbFunction f)
        with Inr Some cb show ?thesis
          by (cases "f (svgCode env (innerHTML env n)) (dom w)") (simp add: render_package_def)
      next
        case CbNotCallable
        with Inr Some cb show ?thesis by (simp add: render_package_def)
      qed
    qed
  qed
qed

lemma not_renderer_filter:
  "list_all (\<lambda>c. \<not> is_renderer_call c) new \<Longrightarrow> filter is_renderer_call new = []"
  by (induction new) simp_all

lemma render_dispatch_unrecognized:
  "detectType env txt \<notin> {''graph'', ''dotGraph'', ''sequenceDiagram'', ''gantt'', ''info''} \<Longrightarrow>
   render_dispatch env ident txt w =
     (case d3_select env (''#d'' @ ident) (dom w) of
        Inl e \<Rightarrow> (Inl e, w)
      | Inr element \<Rightarrow> (Inr (), w))"
  by (simp add: render_dispatch_def split: sum.splits)

lemma render_unrecognized_calls:
  assumes "detectType env txt \<notin> {''graph'', ''dotGraph'', ''sequenceDiagram'', ''gantt'', ''info''}"
  shows "filter is_renderer_call (calls (snd (render env ident txt cb container w)))
           = filter is_renderer_call (calls w)"
proof (cases "render_setup env ident container w")
  case (Pair r0 w0)
  have c0: "calls w0 = calls w"
    using render_setup_calls [of env ident container w] Pair by simp
  show ?thesis
  proof (cases r0)
    case (Inl e)
    with Pair c0 show ?thesis by (simp add: render_steps)
  next
    case (Inr u0)
    show ?thesis
    proof (cases "d3_select env (''#d'' @ ident) (dom w0)")
      case (Inl e)
      with Pair Inr c0 show ?thesis
        by (simp add: render_steps render_dispatch_unrecognized [OF assms])
    next
      case element: (Inr element)
      have d: "render_dispatch env ident txt w0 = (Inr (), w0)"
        using element by (simp add: render_dispatch_unrecognized [OF assms])
      from render_package_calls [of env ident cb w0] obtain new where
        new: "calls (snd (render_package env ident cb w0)) = calls w0 @ new"
        "list_all (\<lambda>c. \<not> is_renderer_call c) new" by blast
      have f: "filter is_renderer_call (calls (snd (render_package env ident cb w0)))
               = filter is_renderer_call (calls w)"
        using new not_renderer_filter [OF new(2)] c0 by simp
      show ?thesis
      proof (cases "render_package env ident cb w0")
        case p: (Pair r2 w2)
        show ?thesis
        proof (cases r2)
          case (Inl e)
          with Pair Inr d p f show ?thesis by (simp add: render_steps)
        next
          case r2: (Inr u2)
          have "calls (snd (render_teardown env ident w2)) = calls w2"
            by (rule render_teardown_calls)
          with Pair Inr d p r2 f show ?thesis by (simp add: render_steps)
        qed
      qed
    qed
  qed
qed

lemma render_setup_anchor:
  "anchor env container (dom w) = Inr sel \<Longrightarrow>
   render_setup env ident container w
     = (Inr (), w\<lparr>dom := d3_append sel (scratch_surface ident) (dom w)\<rparr>)"
  by (cases container) (simp_all add: render_setup_def anchor_def)

lemma render_setup_fresh:
  assumes "anchor env container (dom w) = Inr (Some p)"
    and "node_at (dom w) p = Some (Elem t a ks)"
    and "plain_identifier (''d'' @ ident)"
    and "count_nodes (ById (''d'' @ ident)) (dom w) = 0"
  shows "\<exists>w0. render_setup env ident container w = (Inr (), w0)
     \<and> d3_node env (''#d'' @ ident) (dom w0) = Inr (Some (scratch_surface ident))"
proof -
  have sel: "d3_select env (CHR ''#'' # CHR ''d'' # ident) d
             = Inr (select_nodes (ById (CHR ''d'' # ident)) d)" for d
    using d3_select_plain [OF assms(3)] by simp
  have m: "matches (ById (''d'' @ ident)) (scratch_surface ident)"
    by (simp add: scratch_surface_def)
  have "select_nodes (ById (''d'' @ ident)) (modify_at (append_child (scratch_surface ident)) p (dom w))
        = Some (p @ [length ks])"
    by (rule select_nodes_appended [OF assms(4) assms(2) m])
  moreover have "node_at (modify_at (append_child (scratch_surface ident)) p (dom w)) (p @ [length ks])
        = Some (scratch_surface ident)"
    by (rule node_at_appended [OF assms(2)])
  ultimately show ?thesis
    by (simp add: render_setup_anchor [OF assms(1)] d3_append_def d3_node_def sel)
qed

lemma parse_returns:
  "fst (parse env text w) =
     Inr (case parser_of (detectType env text) of
            None \<Rightarrow> False
          | Some (p, m) \<Rightarrow>
              (case fst (run env (Parser_parse p text) (dom w)) of
                 Inl err \<Rightarrow> False | Inr r \<Rightarrow> True))"
proof (cases "parser_of (detectType env text)")
  case None
  then show ?thesis by (simp add: parse_def)
next
  case (Some pm)
  obtain p m where pm: "pm = (p, m)" by (cases pm)
  show ?thesis
  proof (cases "run env (Parser_parse p text) (dom w)")
    case (Pair r d')
    then show ?thesis using Some pm
      by (cases r) (simp_all add: parse_def do_call_def)
  qed
qed

section \<open>Where an exception of render comes from\<close>

lemma and_then_result:
  assumes "step_result env (m w)"
    and "\<And>x w1. step_result env (f x w1)"
  shows "step_result env (and_then m f w)"
proof (cases "m w")
  case (Pair r w1)
  show ?thesis
  proof (cases r)
    case (Inl e')
    with Pair assms(1) show ?thesis by (simp add: and_then_def step_result_def)
  next
    case (Inr x)
    with Pair assms(2) [of x w1] show ?thesis by (simp add: and_then_def)
  qed
qed

lemma return_result: "step_result env (Inr x, w)"
  by (simp add: step_result_def)

lemma d3_select_raises: "d3_select env s d = Inl e \<Longrightarrow> querySelector env s d = Inl e"
  by (simp add: d3_select_def split: if_splits)

lemma d3_node_raises: "d3_node env s d = Inl e \<Longrightarrow> querySelector env s d = Inl e"
  by (auto simp: d3_node_def dest: d3_select_raises split: sum.splits option.splits)

lemma do_call_result:
  assumes "is_renderer_call c"
  shows "step_result env (do_call env c w)"
proof (cases "run env c (dom w)")
  case (Pair r d')
  show ?thesis
  proof (cases r)
    case (Inl e)
    with Pair have "fst (run env c (dom w)) = Inl e" by simp
    then have "\<exists>d. fst (run env c d) = Inl e" by blast
    with Pair Inl assms show ?thesis
      by (simp add: do_call_def step_exception_def step_result_def)
  next
    case (Inr x)
    with Pair show ?thesis by (simp add: do_call_def step_result_def)
  qed
qed

lemma config_get_result: "step_result env (config_get env k w)"
proof (cases "lookup_chain (Suc (Suc (length (heap w)))) (heap w) (config w) k")
  case (Special q)
  show ?thesis
  proof (cases "special_get env q k (config w) (heap w)")
    case (Pair r h')
    show ?thesis
    proof (cases r)
      case (Inl e)
      with Pair have "fst (special_get env q k (config w) (heap w)) = Inl e" by simp
      then have "\<exists>q k a h. fst (special_get env q k a h) = Inl e" by blast
      with Special Pair Inl show ?thesis
        by (simp add: config_get_def js_get_def step_exception_def step_result_def)
    next
      case (Inr x)
      with Special Pair show ?thesis by (simp add: config_get_def js_get_def step_result_def)
    qed
  qed
qed (simp_all add: config_get_def js_get_def step_result_def)

lemma cloneCssStyles_result: "step_result env (cloneCssStyles env element classes w)"
proof (cases element)
  case None
  then show ?thesis by (simp add: cloneCssStyles_def step_exception_def step_result_def)
next
  case (Some p)
  have "step_result env (and_then
          (do_call env (Utils_cloneCssStyles (first_child (dom w) p) classes))
          (\<lambda>r w'. (Inr (), w')) w)"
    by (rule and_then_result [OF do_call_result]) (simp_all add: return_result)
  with Some show ?thesis by (simp add: cloneCssStyles_def)
qed

lemma render_dispatch_result: "step_result env (render_dispatch env ident txt w)"
proof (cases "d3_select env (''#d'' @ ident) (dom w)")
  case (Inl e)
  from d3_select_raises [OF this] have "\<exists>s d. querySelector env s d = Inl e" by blast
  with Inl show ?thesis by (simp add: render_dispatch_def step_exception_def step_result_def)
next
  case (Inr element)
  then show ?thesis
    unfolding render_dispatch_def Let_def
    by (auto intro!: and_then_result do_call_result cloneCssStyles_result config_get_result
          return_result)
qed

lemma render_dispatch_raises:
  "render_dispatch env ident txt w = (Inl e, w') \<Longrightarrow> step_exception env e w'"
  using render_dispatch_result [of env ident "txt" w] by (simp add: step_result_def)

lemma render_setup_raises:
  assumes "render_setup env ident container w = (Inl e, w')"
  shows "step_exception env e w' \<and> w' = w"
proof (cases container)
  case None
  with assms have "d3_select env ''body'' (dom w) = Inl e" "w' = w"
    by (auto simp: render_setup_def split: sum.splits)
  from d3_select_raises [OF this(1)] this(2) show ?thesis
    by (auto simp: step_exception_def)
next
  case (Some c)
  with assms have i: "d3_select_container env c (dom w) = Inl e" "w' = w"
    by (auto simp: render_setup_def split: sum.splits)
  have "e = Thrown ''HierarchyRequestError'' \<or> (\<exists>s d. querySelector env s d = Inl e)"
  proof (cases c)
    case (Selector s)
    with i have "d3_select env s (dom w) = Inl e" by (simp add: d3_select_container_def)
    from d3_select_raises [OF this] show ?thesis by blast
  next
    case (NodeRef p)
    with i show ?thesis
      by (auto simp: d3_select_container_def split: option.splits node.splits)
  qed
  with i(2) show ?thesis by (auto simp: step_exception_def)
qed

lemma render_package_result:
  "case fst (render_package env ident cb w) of
     Inl e \<Rightarrow> step_exception env e (snd (render_package env ident cb w))
            \<or> callback_exception cb e (snd (render_package env ident cb w))
   | Inr x \<Rightarrow> True"
proof (cases "d3_node env (''#d'' @ ident) (dom w)")
  case (Inl e)
  from d3_node_raises [OF this] have "\<exists>s d. querySelector env s d = Inl e" by blast
  with Inl show ?thesis by (simp add: render_package_def step_exception_def)
next
  case (Inr found)
  show ?thesis
  proof (cases found)
    case None
    with Inr show ?thesis by (simp add: render_package_def step_exception_def)
  next
    case (Some n)
    show ?thesis
    proof (cases cb)
      case None
      with Inr Some show ?thesis by (simp add: render_package_def)
    next
      case cb: (Some c)
      show ?thesis
      proof (cases c)
        case (CbFunction f)
        show ?thesis
        proof (cases "f (svgCode env (innerHTML env n)) (dom w)")
          case (Pair r d')
          show ?thesis
          proof (cases r)
            case (Inl e)
            with Pair have "fst (f (svgCode env (innerHTML env n)) (dom w)) = Inl e" by simp
            then have "\<exists>d. fst (f (svgCode env (innerHTML env n)) d) = Inl e" by blast
            with Inr Some cb CbFunction Pair Inl show ?thesis
              by (simp add: render_package_def callback_exception_def)
          next
            case r: (Inr x)
            with Inr Some cb CbFunction Pair show ?thesis by (simp add: render_package_def)
          qed
        qed
      next
        case CbNotCallable
        with Inr Some cb show ?thesis by (simp add: render_package_def step_exception_def)
      qed
    qed
  qed
qed

lemma render_teardown_result:
  "case fst (render_teardown env ident w) of
     Inl e \<Rightarrow> (\<exists>s d. querySelector env s d = Inl e) | Inr x \<Rightarrow> True"
proof (cases "d3_select env (''#d'' @ ident) (dom w)")
  case (Inl e)
  from d3_select_raises [OF this] have "\<exists>s d. querySelector env s d = Inl e" by blast
  with Inl show ?thesis by (simp add: render_teardown_def)
next
  case (Inr sel)
  then show ?thesis by (cases sel) (simp_all add: render_teardown_def)
qed

lemma render_result:
  assumes "render env ident txt cb container w = (Inl e, w')"
  shows "step_exception env e w' \<or> callback_exception cb e w'
       \<or> (\<exists>s d. querySelector env s d = Inl e)"
proof (cases "render_setup env ident container w")
  case s: (Pair r0 w0)
  show ?thesis
  proof (cases r0)
    case (Inl e0)
    with s assms have "render_setup env ident container w = (Inl e, w')"
      by (simp add: render_steps)
    from render_setup_raises [OF this] show ?thesis by blast
  next
    case r0: (Inr u0)
    show ?thesis
    proof (cases "render_dispatch env ident txt w0")
      case d: (Pair r1 w1)
      show ?thesis
      proof (cases r1)
        case (Inl e1)
        with s r0 d assms have "render_dispatch env ident txt w0 = (Inl e, w')"
          by (simp add: render_steps)
        from render_dispatch_raises [OF this] show ?thesis by simp
      next
        case r1: (Inr u1)
        show ?thesis
        proof (cases "render_package env ident cb w1")
          case p: (Pair r2 w2)
          show ?thesis
          proof (cases r2)
            case (Inl e2)
            with s r0 d r1 p assms have "render_package env ident cb w1 = (Inl e, w')"
              by (simp add: render_steps)
            with render_package_result [of env ident cb w1] show ?thesis by auto
          next
            case r2: (Inr u2)
            with s r0 d r1 p assms have "render_teardown env ident w2 = (Inl e, w')"
              by (simp add: render_steps)
            with render_teardown_result [of env ident w2] show ?thesis by auto
          qed
        qed
      qed
    qed
  qed
qed

section \<open>The scratch surface after render\<close>

text \<open>
  C1 (as amended). \<^verbatim>\<open>render\<close> has no \<^verbatim>\<open>try\<close> and no \<^verbatim>\<open>finally\<close>. Take a call
  \<^verbatim>\<open>render(id, txt, cb, container)\<close> in which the scratch surface is created without an
  exception. If the renderer step and the packaging step (the callback included) of this
  call return normally, nodes have a \<^verbatim>\<open>remove\<close> function, \<^verbatim>\<open>'d' + id\<close> is a plain
  identifier (so that \<^verbatim>\<open>'#d' + id\<close> selects by id), no element had the id \<^verbatim>\<open>'d' + id\<close>
  before the call, and the renderer, the style cloning and the callback of this call leave
  no more elements of that id than there were once the surface was created, then \<^verbatim>\<open>render\<close>
  returns normally and no element with the id \<^verbatim>\<open>'d' + id\<close> is in the presentation tree.
  When the renderer step raises, or the packaging step or the callback does, the exception
  leaves \<^verbatim>\<open>render\<close> with the state as it was at the raise: the removal on lines 366 to 369
  is not reached.
\<close>

theorem render_removes_scratch:
  assumes "render_setup env ident container w = (Inr u0, w0)"
  shows "(\<forall>u1 w1 u2 w2.
            render_dispatch env ident txt w0 = (Inr u1, w1)
          \<and> render_package env ident cb w1 = (Inr u2, w2)
          \<and> node_remove_is_function env
          \<and> plain_identifier (''d'' @ ident)
          \<and> count_nodes (ById (''d'' @ ident)) (dom w) = 0
          \<and> count_nodes (ById (''d'' @ ident)) (dom w2)
              \<le> count_nodes (ById (''d'' @ ident)) (dom w0)
          \<longrightarrow> fst (render env ident txt cb container w) = Inr ()
            \<and> count_nodes (ById (''d'' @ ident))
                (dom (snd (render env ident txt cb container w))) = 0
            \<and> d3_select env (''#d'' @ ident)
                (dom (snd (render env ident txt cb container w))) = Inr None)
       \<and> (\<forall>e w1. render_dispatch env ident txt w0 = (Inl e, w1) \<longrightarrow>
            render env ident txt cb container w = (Inl e, w1))
       \<and> (\<forall>u1 w1 e w2.
            render_dispatch env ident txt w0 = (Inr u1, w1)
          \<and> render_package env ident cb w1 = (Inl e, w2) \<longrightarrow>
            render env ident txt cb container w = (Inl e, w2))"
proof -
  let ?k = "ById (''d'' @ ident)"
  have a: "fst (render env ident txt cb container w) = Inr ()
            \<and> count_nodes ?k (dom (snd (render env ident txt cb container w))) = 0
            \<and> d3_select env (''#d'' @ ident)
                (dom (snd (render env ident txt cb container w))) = Inr None"
    if d: "render_dispatch env ident txt w0 = (Inr u1, w1)"
      and p: "render_package env ident cb w1 = (Inr u2, w2)"
      and r: "node_remove_is_function env"
      and i: "plain_identifier (''d'' @ ident)"
      and z: "count_nodes ?k (dom w) = 0"
      and c: "count_nodes ?k (dom w2) \<le> count_nodes ?k (dom w0)"
    for u1 w1 u2 w2
  proof -
    have "count_nodes ?k (dom w0) \<le> 1"
      using render_setup_count [OF assms] z by simp
    with c have "count_nodes ?k (dom w2) \<le> 1" by simp
    from render_teardown_select [OF r i this] obtain w' where
      w': "render_teardown env ident w2 = (Inr (), w')" "count_nodes ?k (dom w') = 0"
        "d3_select env (''#d'' @ ident) (dom w') = Inr None"
      by blast
    have "render env ident txt cb container w = (Inr (), w')"
      using assms d p w'(1) by (simp add: render_steps)
    with w' show ?thesis by simp
  qed
  have b: "render env ident txt cb container w = (Inl e, w1)"
    if "render_dispatch env ident txt w0 = (Inl e, w1)" for e w1
    using assms that by (simp add: render_steps)
  have c: "render env ident txt cb container w = (Inl e, w2)"
    if "render_dispatch env ident txt w0 = (Inr u1, w1)"
      "render_package env ident cb w1 = (Inl e, w2)" for u1 w1 e w2
    using assms that by (simp add: render_steps)
  show ?thesis using a b c by blast
qed

theorem render_removes_scratch_witness:
  "fst (render_setup demo_env ''id1'' None demo_world) = Inr ()
   \<and> fst (render demo_env ''id1'' ''graph TB; a-->b'' (Some demo_cb) None demo_world) = Inr ()
   \<and> d3_select demo_env ''#did1''
        (dom (snd (render demo_env ''id1'' ''graph TB; a-->b'' (Some demo_cb) None demo_world)))
      = Inr None
   \<and> fst (render demo_env ''id1'' malformed (Some demo_cb) None demo_world)
      = Inl (Thrown ''Parse error'')
   \<and> fst (render demo_env ''id1'' ''graph TB; a-->b'' (Some demo_cb_raising) None demo_world)
      = Inl (Thrown ''callback'')"
proof -
  let ?w0 = "snd (render_setup demo_env ''id1'' None demo_world)"
  let ?good = "''graph TB; a-->b''"
  let ?w1 = "snd (render_dispatch demo_env ''id1'' ?good ?w0)"
  let ?w2 = "snd (render_package demo_env ''id1'' (Some demo_cb) ?w1)"
  have s: "fst (render_setup demo_env ''id1'' None demo_world) = Inr ()" by code_simp
  have d: "fst (render_dispatch demo_env ''id1'' ?good ?w0) = Inr ()" by code_simp
  have p: "fst (render_package demo_env ''id1'' (Some demo_cb) ?w1) = Inr ()" by code_simp
  have n: "node_remove_is_function demo_env" by (simp add: demo_env_def)
  have i: "plain_identifier (''d'' @ ''id1'')" by code_simp
  have z: "count_nodes (ById (''d'' @ ''id1'')) (dom demo_world) = 0" by code_simp
  have c: "count_nodes (ById (''d'' @ ''id1'')) (dom ?w2)
           \<le> count_nodes (ById (''d'' @ ''id1'')) (dom ?w0)" by code_simp
  have dm: "fst (render_dispatch demo_env ''id1'' malformed ?w0) = Inl (Thrown ''Parse error'')"
    by code_simp
  have pr: "fst (render_package demo_env ''id1'' (Some demo_cb_raising) ?w1)
            = Inl (Thrown ''callback'')" by code_simp
  have a: "fst (render demo_env ''id1'' ?good (Some demo_cb) None demo_world) = Inr ()
     \<and> d3_select demo_env (''#d'' @ ''id1'')
          (dom (snd (render demo_env ''id1'' ?good (Some demo_cb) None demo_world))) = Inr None"
    using render_removes_scratch [OF pair_fst [OF s], THEN conjunct1, rule_format,
            OF conjI [OF pair_fst [OF d] conjI [OF pair_fst [OF p] conjI [OF n conjI [OF i
              conjI [OF z c]]]]]]
    by simp
  have b: "render demo_env ''id1'' malformed (Some demo_cb) None demo_world
           = (Inl (Thrown ''Parse error''), snd (render_dispatch demo_env ''id1'' malformed ?w0))"
    using render_removes_scratch [OF pair_fst [OF s], THEN conjunct2, THEN conjunct1,
            rule_format, OF pair_fst [OF dm]] .
  have e: "render demo_env ''id1'' ?good (Some demo_cb_raising) None demo_world
           = (Inl (Thrown ''callback''),
              snd (render_package demo_env ''id1'' (Some demo_cb_raising) ?w1))"
    using render_removes_scratch [OF pair_fst [OF s], THEN conjunct2, THEN conjunct2,
            rule_format, OF conjI [OF pair_fst [OF d] pair_fst [OF pr]]] .
  show ?thesis using s a b e by simp
qed

text \<open>
  C1 as stated fails when the renderer raises: \<^verbatim>\<open>render('id1', 'graph TB\na--', cb)\<close> ends
  with the renderer's exception, and the scratch surface is still the last child of
  \<^verbatim>\<open>body\<close>. It fails on a normal return too, when \<^verbatim>\<open>'#d' + id\<close> does not select by id:
  \<^verbatim>\<open>render('x,h1', 'pie', cb)\<close> looks up \<^verbatim>\<open>'#dx,h1'\<close>, which finds the heading of the page;
  the heading is removed and the scratch surface stays.
\<close>

theorem render_removes_scratch_counterexample:
  "fst (render demo_env ''id1'' malformed (Some demo_cb) None demo_world)
     = Inl (Thrown ''Parse error'')
   \<and> node_at (dom (snd (render demo_env ''id1'' malformed (Some demo_cb) None demo_world)))
        [0, 1, 1] = Some (scratch_surface ''id1'')
   \<and> fst (render demo_env ''x,h1'' ''pie'' (Some demo_cb) None demo_world) = Inr ()
   \<and> dom (snd (render demo_env ''x,h1'' ''pie'' (Some demo_cb) None demo_world))
       = [Elem ''html'' [] [Elem ''head'' [] [], Elem ''body'' [] [scratch_surface ''x,h1'']]]"
  by code_simp

section \<open>A text of no recognised type\<close>

text \<open>
  C2 (as amended). For a text whose detected type is none of \<^verbatim>\<open>graph\<close>, \<^verbatim>\<open>dotGraph\<close>,
  \<^verbatim>\<open>sequenceDiagram\<close>, \<^verbatim>\<open>gantt\<close> and \<^verbatim>\<open>info\<close>, \<^verbatim>\<open>render\<close> calls no renderer and no
  style cloning. The scratch surface is created all the same, before the type is detected:
  when the selection to append to is an element of the document, \<^verbatim>\<open>'d' + id\<close> is a plain
  identifier (so that \<^verbatim>\<open>'#d' + id\<close> selects by id) and no element has the id \<^verbatim>\<open>'d' + id\<close>
  yet, the creation returns normally, the node looked up under \<^verbatim>\<open>'#d' + id\<close> is the new
  scratch surface, and a callback is called once, with the packaged markup of that empty
  surface.
\<close>

theorem render_unrecognized:
  assumes "detectType env txt \<notin> {''graph'', ''dotGraph'', ''sequenceDiagram'', ''gantt'', ''info''}"
  shows "filter is_renderer_call (calls (snd (render env ident txt cb container w)))
           = filter is_renderer_call (calls w)
       \<and> (\<forall>p t a ks f. anchor env container (dom w) = Inr (Some p)
              \<and> node_at (dom w) p = Some (Elem t a ks)
              \<and> plain_identifier (''d'' @ ident)
              \<and> count_nodes (ById (''d'' @ ident)) (dom w) = 0
              \<and> cb = Some (CbFunction f) \<longrightarrow>
            (\<exists>w0. render_setup env ident container w = (Inr (), w0)
                \<and> d3_node env (''#d'' @ ident) (dom w0) = Inr (Some (scratch_surface ident)))
          \<and> calls (snd (render env ident txt cb container w))
              = calls w @ [Cb (svgCode env (innerHTML env (scratch_surface ident)))])"
proof -
  have a: "filter is_renderer_call (calls (snd (render env ident txt cb container w)))
           = filter is_renderer_call (calls w)"
    by (rule render_unrecognized_calls [OF assms])
  have b: "(\<exists>w0. render_setup env ident container w = (Inr (), w0)
                \<and> d3_node env (''#d'' @ ident) (dom w0) = Inr (Some (scratch_surface ident)))
          \<and> calls (snd (render env ident txt cb container w))
              = calls w @ [Cb (svgCode env (innerHTML env (scratch_surface ident)))]"
    if "anchor env container (dom w) = Inr (Some p)" "node_at (dom w) p = Some (Elem t a ks)"
       "plain_identifier (''d'' @ ident)" "count_nodes (ById (''d'' @ ident)) (dom w) = 0"
       "cb = Some (CbFunction f)" for p t a ks f
  proof -
    from render_setup_fresh [OF that(1,2,3,4)] obtain w0 where
      w0: "render_setup env ident container w = (Inr (), w0)"
        "d3_node env (''#d'' @ ident) (dom w0) = Inr (Some (scratch_surface ident))"
      by blast
    from d3_node_select [OF w0(2)] obtain q where
      "d3_select env (''#d'' @ ident) (dom w0) = Inr (Some q)" by blast
    then have d: "render_dispatch env ident txt w0 = (Inr (), w0)"
      by (simp add: render_dispatch_unrecognized [OF assms])
    have c0: "calls w0 = calls w"
      using render_setup_calls [of env ident container w] w0(1) by simp
    from render_calls_callback [OF w0(1) d w0(2), of f] that(5) c0 w0 show ?thesis by simp
  qed
  show ?thesis using a b by blast
qed

theorem render_unrecognized_witness:
  "detectType demo_env ''pie'' \<notin> {''graph'', ''dotGraph'', ''sequenceDiagram'', ''gantt'', ''info''}
   \<and> anchor demo_env None (dom demo_world) = Inr (Some [0, 1])
   \<and> filter is_renderer_call
        (calls (snd (render demo_env ''id1'' ''pie'' (Some demo_cb) None demo_world))) = []
   \<and> calls (snd (render demo_env ''id1'' ''pie'' (Some demo_cb) None demo_world))
        = [Cb (svgCode demo_env (innerHTML demo_env (scratch_surface ''id1'')))]"
proof -
  have u: "detectType demo_env ''pie'' \<notin> {''graph'', ''dotGraph'', ''sequenceDiagram'', ''gantt'', ''info''}"
    by (simp add: demo_env_def demo_detectType_def)
  have a: "anchor demo_env None (dom demo_world) = Inr (Some [0, 1])" by code_simp
  have n: "node_at (dom demo_world) [0, 1] = Some (Elem ''body'' [] [Elem ''h1'' [] [Text ''Docs'']])"
    by code_simp
  have i: "plain_identifier (''d'' @ ''id1'')" by code_simp
  have c: "count_nodes (ById (''d'' @ ''id1'')) (dom demo_world) = 0" by code_simp
  have e: "calls demo_world = []" by (simp add: demo_world_def initial_world_def)
  have f: "Some demo_cb = Some (CbFunction (\<lambda>svg d. (Inr (), d)))" by (simp add: demo_cb_def)
  from render_unrecognized [OF u, of "''id1''" "Some demo_cb" None demo_world]
  have t1: "filter is_renderer_call
        (calls (snd (render demo_env ''id1'' ''pie'' (Some demo_cb) None demo_world)))
        = filter is_renderer_call (calls demo_world)"
    by blast
  from render_unrecognized [OF u, of "''id1''" "Some demo_cb" None demo_world,
         THEN conjunct2, rule_format, OF conjI [OF a conjI [OF n conjI [OF i conjI [OF c f]]]]]
  have t2: "calls (snd (render demo_env ''id1'' ''pie'' (Some demo_cb) None demo_world))
        = calls demo_world @ [Cb (svgCode demo_env (innerHTML demo_env (scratch_surface ''id1'')))]"
    by blast
  show ?thesis using u a t1 t2 e by simp
qed

text \<open>
  C2 as stated fails: for the text \<^verbatim>\<open>pie\<close>, of no recognised type, the scratch surface is in
  the tree after lines 296 to 313, the callback receives its markup, and where nodes have
  no \<^verbatim>\<open>remove\<close> function it is still in the tree when \<^verbatim>\<open>render\<close> returns.
\<close>

theorem render_unrecognized_counterexample:
  \<open>detectType demo_env ''pie'' \<notin> {''graph'', ''dotGraph'', ''sequenceDiagram'', ''gantt'', ''info''}
   \<and> d3_select demo_env ''#did1'' (dom demo_world) = Inr None
   \<and> d3_node demo_env ''#did1'' (dom (snd (render_setup demo_env ''id1'' None demo_world)))
        = Inr (Some (scratch_surface ''id1''))
   \<and> calls (snd (render demo_env ''id1'' ''pie'' (Some demo_cb) None demo_world))
        = [Cb ''<svg id="id1" width="100%" xmlns="http://www.w3.org/2000/svg"><g></g></svg>'']
   \<and> d3_select demo_env ''#did1''
        (dom (snd (render (demo_env\<lparr>node_remove_is_function := False\<rparr>) ''id1'' ''pie''
                     (Some demo_cb) None demo_world)))
        = Inr (Some [0, 1, 1])\<close>
  by code_simp

section \<open>The markup handed to the callback\<close>

text \<open>
  C3 (as amended). The rewrite of line 358 is of the text \<^verbatim>\<open>url(#arrowhead\<close> only, that is
  of the references whose fragment name begins with \<^verbatim>\<open>arrowhead\<close>. When the steps before it
  return normally, the markup of the scratch surface is some segments free of
  \<^verbatim>\<open>url(#arrowhead\<close> with that text between neighbours (as every markup is, by
  \<open>markup_segments\<close>), and the protocol, host and pathname of the location hold no \<^verbatim>\<open>$\<close>,
  the callback is called with the same segments joined by
  \<^verbatim>\<open>url(\<close> + protocol + \<^verbatim>\<open>//\<close> + host + pathname + \<^verbatim>\<open>#arrowhead\<close>: every occurrence of that
  text is rewritten, and the rest of the markup is delivered as it is.
\<close>

theorem render_rewrites_arrowhead:
  assumes "render_setup env ident container w = (Inr u0, w0)"
    and "render_dispatch env ident txt w0 = (Inr u, w1)"
    and "d3_node env (''#d'' @ ident) (dom w1) = Inr (Some n)"
    and "innerHTML env n = join ''url(#arrowhead'' segs"
    and "segs \<noteq> []"
    and "\<forall>seg\<in>set segs. \<not> sublist ''url(#arrowhead'' seg"
    and "CHR ''$'' \<notin> set (protocol env @ host env @ pathname env)"
  shows "calls (snd (render env ident txt (Some (CbFunction f)) container w))
         = calls w1 @ [Cb (join (''url('' @ protocol env @ ''//'' @ host env @ pathname env
                                  @ ''#arrowhead'') segs)]"
proof -
  have "svgCode env (innerHTML env n)
        = join (''url('' @ protocol env @ ''//'' @ host env @ pathname env @ ''#arrowhead'') segs"
    using svgCode_join [OF assms(7,5,6)] assms(4) by simp
  then show ?thesis
    using render_calls_callback [OF assms(1,2,3), of f] by simp
qed

theorem render_rewrites_arrowhead_witness:
  \<open>fst (render_setup demo_env ''id1'' None demo_world) = Inr ()
   \<and> fst (render_dispatch demo_env ''id1'' ''graph TB; a-->b''
            (snd (render_setup demo_env ''id1'' None demo_world))) = Inr ()
   \<and> last (calls (snd (render demo_env ''id1'' ''graph TB; a-->b'' (Some demo_cb) None demo_world)))
     = Cb ''<svg id="id1" width="100%" xmlns="http://www.w3.org/2000/svg"><g></g><path marker-end="url(https://example.org/docs/#arrowhead)"></path></svg>''\<close>
proof -
  let ?w0 = "snd (render_setup demo_env ''id1'' None demo_world)"
  let ?w1 = "snd (render_dispatch demo_env ''id1'' ''graph TB; a-->b'' ?w0)"
  have s: "fst (render_setup demo_env ''id1'' None demo_world) = Inr ()" by code_simp
  have d: "fst (render_dispatch demo_env ''id1'' ''graph TB; a-->b'' ?w0) = Inr ()"
    by code_simp
  have "case d3_node demo_env (''#d'' @ ''id1'') (dom ?w1) of
          Inr (Some n) \<Rightarrow> innerHTML demo_env n = join ''url(#arrowhead'' flow_markup
        | _ \<Rightarrow> False"
    by code_simp
  then obtain n where n: "d3_node demo_env (''#d'' @ ''id1'') (dom ?w1) = Inr (Some n)"
    and i: "innerHTML demo_env n = join ''url(#arrowhead'' flow_markup"
    by (auto split: sum.splits option.splits)
  have m: "flow_markup \<noteq> []" by (simp add: flow_markup_def)
  have f: "\<forall>seg\<in>set flow_markup. \<not> sublist ''url(#arrowhead'' seg" by code_simp
  have l: "CHR ''$'' \<notin> set (protocol demo_env @ host demo_env @ pathname demo_env)" by code_simp
  have c: "demo_cb = CbFunction (\<lambda>svg d. (Inr (), d))" by (simp add: demo_cb_def)
  have j: \<open>join (''url('' @ protocol demo_env @ ''//'' @ host demo_env @ pathname demo_env
                  @ ''#arrowhead'') flow_markup
         = ''<svg id="id1" width="100%" xmlns="http://www.w3.org/2000/svg"><g></g><path marker-end="url(https://example.org/docs/#arrowhead)"></path></svg>''\<close>
    by code_simp
  from render_rewrites_arrowhead [OF pair_fst [OF s] pair_fst [OF d] n i m f l,
         of "\<lambda>svg d. (Inr (), d)"]
  show ?thesis using s d j c by simp
qed

text \<open>
  C3 as stated fails for a fragment name that does not begin with \<^verbatim>\<open>arrowhead\<close>: the
  sequence renderer's \<^verbatim>\<open>url(#crosshead)\<close> reaches the callback as it was drawn.
\<close>

theorem render_rewrites_arrowhead_counterexample:
  \<open>last (calls (snd (render demo_env ''id1'' ''sequenceDiagram'' (Some demo_cb) None demo_world)))
   = Cb ''<svg id="id1" width="100%" xmlns="http://www.w3.org/2000/svg"><g></g><line marker-end="url(https://example.org/docs/#arrowhead)"></line><line marker-end="url(#crosshead)"></line></svg>''\<close>
  by code_simp

section \<open>Exceptions at the public operations\<close>

text \<open>
  C4 (as amended). \<^verbatim>\<open>parse\<close> never lets an exception out: its outcome is a boolean.
  \<^verbatim>\<open>render\<close>, the public one and the internal one, has no handler, so its outcome is not
  always reported through the callback. An exception that leaves the public \<^verbatim>\<open>render\<close>
  does so where a document is defined, and it is a TypeError, the exception of appending to
  a text node, an exception of the selector engine, of reading a special configuration
  object, of the renderer or style cloning call recorded last, or of the callback on the
  markup recorded last. Where a document is defined: an exception raised while the scratch
  surface is created leaves \<^verbatim>\<open>render\<close> with the state unchanged; one raised by the renderer
  step leaves it with the state at the raise and with no callback called; one raised by
  the packaging step or the callback leaves it with the state at the raise. And when these
  steps return normally, with a callback that returns normally and a final lookup of
  \<^verbatim>\<open>'#d' + id\<close> that raises nothing, \<^verbatim>\<open>render\<close> returns normally and the callback has been
  called with the packaged markup, as the last call.
\<close>

theorem facade_exceptions:
  "(\<exists>b. fst (parse env text w) = Inr b)
   \<and> (\<forall>e w'. exports_render env ident txt cb container w = (Inl e, w') \<longrightarrow>
         document_defined env
       \<and> (step_exception env e w' \<or> callback_exception cb e w'
          \<or> (\<exists>s d. querySelector env s d = Inl e)))
   \<and> (document_defined env \<longrightarrow>
        (\<forall>e w0. render_setup env ident container w = (Inl e, w0) \<longrightarrow>
           exports_render env ident txt cb container w = (Inl e, w))
      \<and> (\<forall>u0 w0 e w1.
           render_setup env ident container w = (Inr u0, w0)
         \<and> render_dispatch env ident txt w0 = (Inl e, w1) \<longrightarrow>
           exports_render env ident txt cb container w = (Inl e, w1)
         \<and> filter is_Cb (calls w1) = filter is_Cb (calls w))
      \<and> (\<forall>u0 w0 u1 w1 e w2.
           render_setup env ident container w = (Inr u0, w0)
         \<and> render_dispatch env ident txt w0 = (Inr u1, w1)
         \<and> render_package env ident cb w1 = (Inl e, w2) \<longrightarrow>
           exports_render env ident txt cb container w = (Inl e, w2))
      \<and> (\<forall>u0 w0 u1 w1 n f d'.
           render_setup env ident container w = (Inr u0, w0)
         \<and> render_dispatch env ident txt w0 = (Inr u1, w1)
         \<and> d3_node env (''#d'' @ ident) (dom w1) = Inr (Some n)
         \<and> cb = Some (CbFunction f)
         \<and> f (svgCode env (innerHTML env n)) (dom w1) = (Inr (), d')
         \<and> (\<forall>e. d3_select env (''#d'' @ ident) d' \<noteq> Inl e) \<longrightarrow>
           fst (exports_render env ident txt cb container w) = Inr ()
         \<and> calls (snd (exports_render env ident txt cb container w))
             = calls w1 @ [Cb (svgCode env (innerHTML env n))]))"
proof -
  have p: "\<exists>b. fst (parse env text w) = Inr b" by (simp add: parse_returns)
  have r: "document_defined env
       \<and> (step_exception env e w' \<or> callback_exception cb e w'
          \<or> (\<exists>s d. querySelector env s d = Inl e))"
    if "exports_render env ident txt cb container w = (Inl e, w')" for e w'
  proof -
    from that have dd: "document_defined env"
      by (simp add: exports_render_def split: if_splits)
    with that have "render env ident txt cb container w = (Inl e, w')"
      by (simp add: exports_render_def)
    from render_result [OF this] dd show ?thesis by simp
  qed
  have s: "exports_render env ident txt cb container w = (Inl e, w)"
    if "document_defined env" "render_setup env ident container w = (Inl e, w0)" for e w0
    using that render_setup_raises [OF that(2)]
    by (simp add: exports_render_def render_steps)
  have d: "exports_render env ident txt cb container w = (Inl e, w1)
         \<and> filter is_Cb (calls w1) = filter is_Cb (calls w)"
    if "document_defined env" "render_setup env ident container w = (Inr u0, w0)"
       "render_dispatch env ident txt w0 = (Inl e, w1)" for u0 w0 e w1
  proof -
    have c0: "calls w0 = calls w"
      using render_setup_calls [of env ident container w] that(2) by simp
    from render_dispatch_calls [of env ident "txt" w0] that(3)
    obtain new where new: "calls w1 = calls w0 @ new" "list_all is_renderer_call new" by auto
    have "filter is_Cb (calls w1) = filter is_Cb (calls w)"
      using new renderer_call_not_Cb [OF new(2)] c0 by simp
    then show ?thesis using that by (simp add: exports_render_def render_steps)
  qed
  have k: "exports_render env ident txt cb container w = (Inl e, w2)"
    if "document_defined env" "render_setup env ident container w = (Inr u0, w0)"
       "render_dispatch env ident txt w0 = (Inr u1, w1)"
       "render_package env ident cb w1 = (Inl e, w2)" for u0 w0 u1 w1 e w2
    using that by (simp add: exports_render_def render_steps)
  have n: "fst (exports_render env ident txt cb container w) = Inr ()
         \<and> calls (snd (exports_render env ident txt cb container w))
             = calls w1 @ [Cb (svgCode env (innerHTML env n))]"
    if "document_defined env" "render_setup env ident container w = (Inr u0, w0)"
       "render_dispatch env ident txt w0 = (Inr u1, w1)"
       "d3_node env (''#d'' @ ident) (dom w1) = Inr (Some n)"
       "cb = Some (CbFunction f)"
       "f (svgCode env (innerHTML env n)) (dom w1) = (Inr (), d')"
       "\<forall>e. d3_select env (''#d'' @ ident) d' \<noteq> Inl e" for u0 w0 u1 w1 n f d'
  proof -
    let ?w2 = "w1\<lparr>dom := d', calls := calls w1 @ [Cb (svgCode env (innerHTML env n))]\<rparr>"
    have pk: "render_package env ident cb w1 = (Inr (), ?w2)"
      using that(4,5,6) by (simp add: render_package_def)
    have td: "fst (render_teardown env ident ?w2) = Inr ()"
      using that(7)
      by (cases "d3_select env (''#d'' @ ident) d'")
         (auto simp: render_teardown_def split: option.splits)
    have tc: "calls (snd (render_teardown env ident ?w2)) = calls ?w2"
      by (rule render_teardown_calls)
    have "exports_render env ident txt cb container w = render_teardown env ident ?w2"
      using that(1,2,3) pk by (simp add: exports_render_def render_steps)
    with td tc show ?thesis by simp
  qed
  show ?thesis
  proof (intro conjI impI)
    show "\<exists>b. fst (parse env text w) = Inr b" by (rule p)
  next
    show "\<forall>e w'. exports_render env ident txt cb container w = (Inl e, w') \<longrightarrow>
         document_defined env
       \<and> (step_exception env e w' \<or> callback_exception cb e w'
          \<or> (\<exists>s d. querySelector env s d = Inl e))"
      using r by blast
  next
    assume dd: "document_defined env"
    show "\<forall>e w0. render_setup env ident container w = (Inl e, w0) \<longrightarrow>
           exports_render env ident txt cb container w = (Inl e, w)"
      using s [OF dd] by blast
  next
    assume dd: "document_defined env"
    show "\<forall>u0 w0 e w1.
           render_setup env ident container w = (Inr u0, w0)
         \<and> render_dispatch env ident txt w0 = (Inl e, w1) \<longrightarrow>
           exports_render env ident txt cb container w = (Inl e, w1)
         \<and> filter is_Cb (calls w1) = filter is_Cb (calls w)"
      using d [OF dd] by blast
  next
    assume dd: "document_defined env"
    show "\<forall>u0 w0 u1 w1 e w2.
           render_setup env ident container w = (Inr u0, w0)
         \<and> render_dispatch env ident txt w0 = (Inr u1, w1)
         \<and> render_package env ident cb w1 = (Inl e, w2) \<longrightarrow>
           exports_render env ident txt cb container w = (Inl e, w2)"
      using k [OF dd] by blast
  next
    assume dd: "document_defined env"
    show "\<forall>u0 w0 u1 w1 n f d'.
           render_setup env ident container w = (Inr u0, w0)
         \<and> render_dispatch env ident txt w0 = (Inr u1, w1)
         \<and> d3_node env (''#d'' @ ident) (dom w1) = Inr (Some n)
         \<and> cb = Some (CbFunction f)
         \<and> f (svgCode env (innerHTML env n)) (dom w1) = (Inr (), d')
         \<and> (\<forall>e. d3_select env (''#d'' @ ident) d' \<noteq> Inl e) \<longrightarrow>
           fst (exports_render env ident txt cb container w) = Inr ()
         \<and> calls (snd (exports_render env ident txt cb container w))
             = calls w1 @ [Cb (svgCode env (innerHTML env n))]"
      by (intro allI impI, elim conjE, rule n [OF dd]) assumption+
  qed
qed

theorem facade_exceptions_witness:
  "fst (parse demo_env malformed demo_world) = Inr False
   \<and> document_defined demo_env
   \<and> fst (exports_render demo_env ''id1'' malformed (Some demo_cb) None demo_world)
       = Inl (Thrown ''Parse error'')
   \<and> filter is_Cb (calls (snd (render_dispatch demo_env ''id1'' malformed
        (snd (render_setup demo_env ''id1'' None demo_world))))) = []
   \<and> fst (exports_render demo_env ''id1'' ''graph TB; a-->b'' (Some demo_cb) None demo_world)
       = Inr ()"
proof -
  let ?w0 = "snd (render_setup demo_env ''id1'' None demo_world)"
  let ?good = "''graph TB; a-->b''"
  let ?w1 = "snd (render_dispatch demo_env ''id1'' ?good ?w0)"
  have p: "fst (parse demo_env malformed demo_world) = Inr False" by code_simp
  have dd: "document_defined demo_env" by (simp add: demo_env_def)
  have s: "fst (render_setup demo_env ''id1'' None demo_world) = Inr ()" by code_simp
  have dm: "fst (render_dispatch demo_env ''id1'' malformed ?w0) = Inl (Thrown ''Parse error'')"
    by code_simp
  have e: "calls demo_world = []" by (simp add: demo_world_def initial_world_def)
  note T = facade_exceptions [of demo_env malformed demo_world "''id1''" _ "Some demo_cb" None,
             THEN conjunct2, THEN conjunct2, rule_format, OF dd]
  from T [THEN conjunct2, THEN conjunct1, rule_format,
          OF conjI [OF pair_fst [OF s] pair_fst [OF dm]]]
  have a: "exports_render demo_env ''id1'' malformed (Some demo_cb) None demo_world
             = (Inl (Thrown ''Parse error''), snd (render_dispatch demo_env ''id1'' malformed ?w0))"
    "filter is_Cb (calls (snd (render_dispatch demo_env ''id1'' malformed ?w0)))
       = filter is_Cb (calls demo_world)"
    by blast+
  have d: "fst (render_dispatch demo_env ''id1'' ?good ?w0) = Inr ()" by code_simp
  have "case d3_node demo_env (''#d'' @ ''id1'') (dom ?w1) of
          Inr (Some n) \<Rightarrow> True | _ \<Rightarrow> False"
    by code_simp
  then obtain n where n: "d3_node demo_env (''#d'' @ ''id1'') (dom ?w1) = Inr (Some n)"
    by (auto split: sum.splits option.splits)
  have c: "Some demo_cb = Some (CbFunction (\<lambda>svg d. (Inr (), d)))" by (simp add: demo_cb_def)
  have f: "(\<lambda>svg d. (Inr (), d)) (svgCode demo_env (innerHTML demo_env n)) (dom ?w1)
           = (Inr (), dom ?w1)" by simp
  have i: "plain_identifier (''d'' @ ''id1'')" by code_simp
  have q: "\<forall>e. d3_select demo_env (''#d'' @ ''id1'') (dom ?w1) \<noteq> Inl e"
    using d3_select_plain [OF i, of demo_env] by simp
  from T [THEN conjunct2, THEN conjunct2, THEN conjunct2, rule_format,
          OF conjI [OF pair_fst [OF s] conjI [OF pair_fst [OF d] conjI [OF n conjI [OF c
            conjI [OF f q]]]]]]
  have b: "fst (exports_render demo_env ''id1'' ?good (Some demo_cb) None demo_world) = Inr ()"
    by blast
  show ?thesis using p dd a b e by simp
qed

text \<open>
  C4 as stated fails: the renderer's exception on \<^verbatim>\<open>'graph TB\na--'\<close> leaves the public
  \<^verbatim>\<open>render\<close> and the callback is never called; with a container selector that matches
  nothing, \<^verbatim>\<open>render\<close> raises a TypeError; and with an \<^verbatim>\<open>id\<close> that makes \<^verbatim>\<open>'#d' + id\<close> no
  selector, the exception of the selector engine leaves it.
\<close>

theorem facade_exceptions_counterexample:
  "fst (exports_render demo_env ''id1'' malformed (Some demo_cb) None demo_world)
     = Inl (Thrown ''Parse error'')
   \<and> filter is_Cb (calls (snd (exports_render demo_env ''id1'' malformed (Some demo_cb) None
        demo_world))) = []
   \<and> fst (exports_render demo_env ''id1'' ''pie'' (Some demo_cb)
        (Some (Selector ''#nowhere'')) demo_world) = Inl TypeError
   \<and> fst (exports_render demo_env ''a b'' ''pie'' (Some demo_cb) None demo_world)
       = Inl (Thrown ''SyntaxError'')"
  by code_simp

text \<open>
  C6. For every text \<^verbatim>\<open>parse\<close> returns a boolean and raises nothing: \<^verbatim>\<open>false\<close> when the
  parser of the detected type raises (or the type has no parser, where the call on
  \<^verbatim>\<open>undefined\<close> raises inside the \<^verbatim>\<open>try\<close>), \<^verbatim>\<open>true\<close> when the parser returns.
\<close>

theorem parse_boolean:
  "fst (parse env text w) =
     Inr (case parser_of (detectType env text) of
            None \<Rightarrow> False
          | Some (p, m) \<Rightarrow>
              (case fst (run env (Parser_parse p text) (dom w)) of
                 Inl err \<Rightarrow> False | Inr r \<Rightarrow> True))"
proof (cases "parser_of (detectType env text)")
  case None
  then show ?thesis by (simp add: parse_def)
next
  case (Some pm)
  obtain p m where pm: "pm = (p, m)" by (cases pm)
  show ?thesis
  proof (cases "fst (run env (Parser_parse p text) (dom w))")
    case (Inl err)
    then show ?thesis using Some pm
      by (cases "run env (Parser_parse p text) (dom w)") (simp add: parse_def do_call_def)
  next
    case (Inr r)
    then show ?thesis using Some pm
      by (cases "run env (Parser_parse p text) (dom w)") (simp add: parse_def do_call_def)
  qed
qed

theorem parse_boolean_witness:
  "fst (parse demo_env ''graph TB; a-->b'' demo_world) = Inr True
   \<and> fst (parse demo_env malformed demo_world) = Inr False
   \<and> fst (parse demo_env ''pie'' demo_world) = Inr False"
  using parse_boolean [of demo_env "''graph TB; a-->b''" demo_world]
    parse_boolean [of demo_env malformed demo_world]
    parse_boolean [of demo_env "''pie''" demo_world]
  by (simp add: demo_env_def demo_detectType_def malformed_def)

text \<open>
  C8. Where no document is defined, the public \<^verbatim>\<open>render\<close> returns normally and leaves the
  whole state as it was: no work on the tree, no call to a collaborator. Where one is
  defined, it does what the internal \<^verbatim>\<open>render\<close> does.
\<close>

theorem exports_render_headless:
  "(\<not> document_defined env \<longrightarrow>
      exports_render env ident text cb containerElement w = (Inr (), w))
   \<and> (document_defined env \<longrightarrow>
      exports_render env ident text cb containerElement w
        = render env ident text cb containerElement w)"
  by (simp add: exports_render_def)

theorem exports_render_headless_witness:
  "\<not> document_defined (demo_env\<lparr>document_defined := False\<rparr>)
   \<and> exports_render (demo_env\<lparr>document_defined := False\<rparr>) ''id1'' ''graph TB; a-->b''
        (Some demo_cb) None demo_world = (Inr (), demo_world)
   \<and> document_defined demo_env
   \<and> exports_render demo_env ''id1'' ''graph TB; a-->b'' (Some demo_cb) None demo_world
       = render demo_env ''id1'' ''graph TB; a-->b'' (Some demo_cb) None demo_world"
  using exports_render_headless [of "demo_env\<lparr>document_defined := False\<rparr>" "''id1''"
          "''graph TB; a-->b''" "Some demo_cb" None demo_world]
    exports_render_headless [of demo_env "''id1''" "''graph TB; a-->b''" "Some demo_cb" None
          demo_world]
  by (simp add: demo_env_def)

section \<open>The callback\<close>





end
